theory Spec2Isabelle
  imports
    Main
    "HOL-Library.Char_ord"
    "HOL-Library.List_Lexorder"
    "HOL-Library.Sublist"
    "HOL-Library.Multiset"
begin

section \<open>The document pipeline and the creative cycle of agi-build-agent\<close>

text \<open>
  The development embeds the parts of \<^verbatim>\<open>Main.py\<close>, \<^verbatim>\<open>Fastapi_main.py\<close>,
  \<^verbatim>\<open>Agi_memory.py\<close>, \<^verbatim>\<open>Recursive_amplifier.py\<close> and \<^verbatim>\<open>Transformation_engine.py\<close>
  that classify a document, assemble and run its stages, log events, answer status queries
  and amplify a creative construct.

  A Python \<^verbatim>\<open>str\<close> is a \<^typ>\<open>string\<close> whose characters are code points; \<^typ>\<open>char\<close>
  offers the code points below 256. The order on strings is the lexicographic order by
  code point, which is how Python compares two \<^verbatim>\<open>str\<close> values. Output written with
  \<^verbatim>\<open>print\<close> is not part of the model.
\<close>

subsection \<open>Python string operations\<close>

text \<open>
  \<^verbatim>\<open>x in s\<close> on two strings tests whether \<open>x\<close> occurs in \<open>s\<close> as a contiguous
  block.
\<close>

definition py_in :: "string \<Rightarrow> string \<Rightarrow> bool" where
  "py_in x s = sublist x s"

text \<open>
  \<^verbatim>\<open>str.lower()\<close> on the code points below 256: the letters A to Z and the upper-case
  letters of the Latin-1 block (0xC0 to 0xDE without the multiplication sign 0xD7) move up
  by 32, every other code point is unchanged.
\<close>

definition lower_char :: "char \<Rightarrow> char" where
  "lower_char c =
     (let n = (of_char c :: nat)
      in if (65 \<le> n \<and> n \<le> 90) \<or> (192 \<le> n \<and> n \<le> 222 \<and> n \<noteq> 215)
         then char_of (n + 32) else c)"

definition py_lower :: "string \<Rightarrow> string" where
  "py_lower s = map lower_char s"

text \<open>
  \<^verbatim>\<open>str.isprintable()\<close> and \<^verbatim>\<open>str.isspace()\<close> for one code point below 256. Not
  printable are the control characters 0x00 to 0x1F and 0x7F to 0x9F, the no-break space
  0xA0 and the soft hyphen 0xAD. White space are 0x09 to 0x0D, 0x1C to 0x20, 0x85 and 0xA0.
\<close>

definition py_isprintable :: "char \<Rightarrow> bool" where
  "py_isprintable c =
     (let n = (of_char c :: nat) in (32 \<le> n \<and> n < 127) \<or> (161 \<le> n \<and> n \<noteq> 173))"

definition py_isspace :: "char \<Rightarrow> bool" where
  "py_isspace c =
     (let n = (of_char c :: nat)
      in (9 \<le> n \<and> n \<le> 13) \<or> (28 \<le> n \<and> n \<le> 32) \<or> n = 133 \<or> n = 160)"

text \<open>
  \<^verbatim>\<open>repr\<close> of a string. The quote is the double quote when the string holds a single
  quote and no double quote, and the single quote otherwise. A character equal to the
  quote and the backslash are written after a backslash; tab, line feed and carriage
  return as \<^verbatim>\<open>\t\<close>, \<^verbatim>\<open>\n\<close>, \<^verbatim>\<open>\r\<close>; every other code point that is not printable as
  \<^verbatim>\<open>\x\<close> and two lower-case hexadecimal digits; a printable one as itself.
\<close>

definition hex_digit :: "nat \<Rightarrow> char" where
  "hex_digit n = ''0123456789abcdef'' ! n"

definition repr_char :: "char \<Rightarrow> char \<Rightarrow> string" where
  "repr_char quote c =
     (if c = quote \<or> c = CHR 0x5C then [CHR 0x5C, c]
      else if c = CHR 0x09 then [CHR 0x5C, CHR ''t'']
      else if c = CHR 0x0A then [CHR 0x5C, CHR ''n'']
      else if c = CHR 0x0D then [CHR 0x5C, CHR ''r'']
      else if py_isprintable c then [c]
      else [CHR 0x5C, CHR ''x'', hex_digit (of_char c div 16), hex_digit (of_char c mod 16)])"

definition repr_quote :: "string \<Rightarrow> char" where
  "repr_quote s = (if CHR 0x27 \<in> set s \<and> CHR 0x22 \<notin> set s then CHR 0x22 else CHR 0x27)"

definition py_repr :: "string \<Rightarrow> string" where
  "py_repr s = [repr_quote s] @ concat (map (repr_char (repr_quote s)) s) @ [repr_quote s]"

text \<open>
  \<^verbatim>\<open>str(tags)\<close> for \<^verbatim>\<open>tags: Optional[list[str]]\<close>: the text \<^verbatim>\<open>None\<close>, or the
  \<^verbatim>\<open>repr\<close> of every element, separated by a comma and a space, in square brackets.
\<close>

fun join_comma :: "string list \<Rightarrow> string" where
  "join_comma [] = []"
| "join_comma [x] = x"
| "join_comma (x # y # ys) = x @ '', '' @ join_comma (y # ys)"

definition py_str_tags :: "string list option \<Rightarrow> string" where
  "py_str_tags tags =
     (case tags of
        None \<Rightarrow> ''None''
      | Some ts \<Rightarrow> ''['' @ join_comma (map py_repr ts) @ '']'')"

text \<open>\<^verbatim>\<open>str.strip()\<close>: white space is removed at both ends.\<close>

definition py_strip :: "string \<Rightarrow> string" where
  "py_strip s = rev (dropWhile py_isspace (rev (dropWhile py_isspace s)))"

text \<open>
  The call \<^verbatim>\<open>.replace("..", "_")\<close>: Python scans from the left and replaces every
  occurrence that does not overlap an earlier one.
\<close>

fun replace_dotdot :: "string \<Rightarrow> string" where
  "replace_dotdot (a # b # cs) =
     (if a = CHR ''.'' \<and> b = CHR ''.'' then CHR ''_'' # replace_dotdot cs
      else a # replace_dotdot (b # cs))"
| "replace_dotdot cs = cs"

subsection \<open>Paths\<close>

text \<open>
  \<^verbatim>\<open>os.path.basename\<close> and \<^verbatim>\<open>os.path.join\<close> (with two arguments) of \<^verbatim>\<open>posixpath\<close>;
  the directories of the services are POSIX paths. The base name is what follows the last
  slash. The join is the second path when that starts with a slash; otherwise the first
  path, a slash unless the first path is empty or ends with one, and the second path.
\<close>

definition basename :: "string \<Rightarrow> string" where
  "basename p = rev (takeWhile (\<lambda>c. c \<noteq> CHR ''/'') (rev p))"

definition path_join :: "string \<Rightarrow> string \<Rightarrow> string" where
  "path_join a b =
     (if b \<noteq> [] \<and> hd b = CHR ''/'' then b
      else if a = [] \<or> last a = CHR ''/'' then a @ b
      else a @ ''/'' @ b)"

text \<open>
  \<^verbatim>\<open>DYNAMIC_DIRS\<close>, the same dictionary in \<^verbatim>\<open>Main.py\<close> (lines 22 to 28) and in
  \<^verbatim>\<open>Fastapi_main.py\<close> (lines 35 to 41).
\<close>

definition DYNAMIC_DIRS :: "(string \<times> string) list" where
  "DYNAMIC_DIRS =
     [(''contract'', ''/mnt/data/processed/contracts''),
      (''research_paper'', ''/mnt/data/processed/papers''),
      (''invoice'', ''/mnt/data/processed/invoices''),
      (''quarantine'', ''/mnt/data/quarantine''),
      (''temp_staging'', ''/tmp/agi_staging'')]"

definition quarantine_dir :: string where
  "quarantine_dir = ''/mnt/data/quarantine''"

definition temp_staging_dir :: string where
  "temp_staging_dir = ''/tmp/agi_staging''"

text \<open>
  \<^verbatim>\<open>DYNAMIC_DIRS.get(agi_determined_type, DYNAMIC_DIRS["quarantine"])\<close>.
\<close>

definition final_processed_dir :: "string \<Rightarrow> string" where
  "final_processed_dir category =
     (case map_of DYNAMIC_DIRS category of
        Some d \<Rightarrow> d
      | None \<Rightarrow> quarantine_dir)"

text \<open>\<^verbatim>\<open>sanitize_filename\<close>, \<^verbatim>\<open>Main.py\<close> line 58 and \<^verbatim>\<open>Fastapi_main.py\<close> line 107.\<close>

definition sanitize_filename :: "string \<Rightarrow> string" where
  "sanitize_filename filename = py_strip (replace_dotdot (basename filename))"

subsection \<open>Classifier\<close>

text \<open>
  \<^verbatim>\<open>Main.py\<close>, lines 89 to 97: the value of \<^verbatim>\<open>agi_determined_type\<close> after the
  \<^verbatim>\<open>if\<close>/\<^verbatim>\<open>elif\<close> ladder over \<^verbatim>\<open>file_path.lower()\<close> and
  \<^verbatim>\<open>str(initial_metadata.tags).lower()\<close>.
\<close>

definition agi_determined_type :: "string \<Rightarrow> string list option \<Rightarrow> string" where
  "agi_determined_type file_path tags =
     (if py_in ''contract'' (py_lower file_path) \<or> py_in ''agreement'' (py_lower file_path)
         \<or> py_in ''legal'' (py_lower (py_str_tags tags)) then ''contract''
      else if py_in ''invoice'' (py_lower file_path)
         \<or> py_in ''billing'' (py_lower (py_str_tags tags)) then ''invoice''
      else if py_in ''research'' (py_lower file_path) \<or> py_in ''paper'' (py_lower file_path)
        then ''research_paper''
      else ''unknown'')"

text \<open>
  \<^verbatim>\<open>Fastapi_main.py\<close>, lines 122 to 126: the same ladder without the research rule.
\<close>

definition agi_determined_type_fastapi :: "string \<Rightarrow> string list option \<Rightarrow> string" where
  "agi_determined_type_fastapi file_path tags =
     (if py_in ''contract'' (py_lower file_path) \<or> py_in ''agreement'' (py_lower file_path)
         \<or> py_in ''legal'' (py_lower (py_str_tags tags)) then ''contract''
      else if py_in ''invoice'' (py_lower file_path)
         \<or> py_in ''billing'' (py_lower (py_str_tags tags)) then ''invoice''
      else ''unknown'')"

text \<open>
  The classifier as the specification words it: an ordered list of rules over the
  lower-cased path and the tags, each rule a category and a test, the first rule whose
  test holds gives the category, and no match gives \<^verbatim>\<open>unknown\<close>. A tag contains a
  keyword when the keyword occurs in the lower-cased tag.
\<close>

definition tag_contains :: "string \<Rightarrow> string list \<Rightarrow> bool" where
  "tag_contains keyword tags = (\<exists>t \<in> set tags. py_in keyword (py_lower t))"

definition spec_rules :: "(string \<times> (string \<Rightarrow> string list \<Rightarrow> bool)) list" where
  "spec_rules =
     [(''contract'', \<lambda>signal tags.
         py_in ''contract'' signal \<or> py_in ''agreement'' signal \<or> tag_contains ''legal'' tags),
      (''invoice'', \<lambda>signal tags.
         py_in ''invoice'' signal \<or> tag_contains ''billing'' tags),
      (''research_paper'', \<lambda>signal tags.
         py_in ''research'' signal \<or> py_in ''paper'' signal)]"

fun first_match ::
  "(string \<times> (string \<Rightarrow> string list \<Rightarrow> bool)) list \<Rightarrow> string \<Rightarrow> string list \<Rightarrow> string" where
  "first_match [] signal tags = ''unknown''"
| "first_match ((category, test) # rules) signal tags =
     (if test signal tags then category else first_match rules signal tags)"

definition spec_classify :: "string \<Rightarrow> string list \<Rightarrow> string" where
  "spec_classify signal tags = first_match spec_rules signal tags"

subsection \<open>Stage registry\<close>

text \<open>
  \<^verbatim>\<open>Main.py\<close>, lines 107 to 118: the \<^verbatim>\<open>if\<close>/\<^verbatim>\<open>elif\<close> ladder that assigns
  \<^verbatim>\<open>processing_modules\<close> from \<^verbatim>\<open>agi_determined_type\<close>.
\<close>

definition processing_modules :: "string \<Rightarrow> string list" where
  "processing_modules category =
     (if category = ''contract'' then
        [''deep_ocr_segmentation'', ''semantic_clause_extraction'',
         ''entity_resolution_graph_update'', ''predictive_risk_assessment_model'']
      else if category = ''invoice'' then
        [''adaptive_form_recognition'', ''line_item_data_extraction_nlp'',
         ''automated_reconciliation_engine'']
      else if category = ''research_paper'' then
        [''scientific_abstract_summarization'', ''citation_network_mapping'',
         ''novelty_detection_algorithm'']
      else
        [''general_content_indexing'', ''topic_modeling_discovery''])"

text \<open>
  \<^verbatim>\<open>Fastapi_main.py\<close>, lines 130 to 134: the shorter ladder of the second service, which
  knows the contract pipeline and the fallback only.
\<close>

definition processing_modules_fastapi :: "string \<Rightarrow> string list" where
  "processing_modules_fastapi category =
     (if category = ''contract'' then
        [''deep_ocr_segmentation'', ''semantic_clause_extraction'',
         ''entity_resolution_graph_update'', ''predictive_risk_assessment_model'']
      else
        [''general_content_indexing'', ''topic_modeling_discovery''])"

subsection \<open>Events and the event log\<close>

text \<open>
  JSON values, as TinyDB stores them, and the event record that \<^verbatim>\<open>store_event\<close>
  builds (\<^verbatim>\<open>Agi_memory.py\<close>, lines 17 to 21). A Python dictionary with string keys is
  an association list with distinct keys. The database is the list of its documents in
  insertion order. \<^verbatim>\<open>store_event\<close> is the only writer, so every document has the three
  keys of the record (the key \<^verbatim>\<open>data\<close> is the field \<open>payload\<close>), and the defaults of \<^verbatim>\<open>x.get("timestamp", "")\<close>,
  \<^verbatim>\<open>.get("event_type", "Unknown Event")\<close> and \<^verbatim>\<open>.get("data", {})\<close> are never taken.
\<close>

datatype jval =
  JNull | JBool bool | JInt int | JStr string | JList "jval list" | JObj "(string \<times> jval) list"

record event =
  timestamp :: string
  event_type :: string
  payload :: "(string \<times> jval) list"

text \<open>
  \<^verbatim>\<open>store_event\<close>, \<^verbatim>\<open>Agi_memory.py\<close> lines 12 to 23. The reading of
  \<^verbatim>\<open>datetime.now().isoformat()\<close> is the argument \<open>now\<close>. The insert, with
  TinyDB's writing of the document to its file, is taken to succeed, as the specification
  has it for normal operation.
\<close>

definition store_event ::
  "string \<Rightarrow> string \<Rightarrow> (string \<times> jval) list \<Rightarrow> event list \<Rightarrow> event list" where
  "store_event now ty d tinydb =
     tinydb @ [\<lparr>timestamp = now, event_type = ty, payload = d\<rparr>]"

text \<open>
  The TinyDB test \<^verbatim>\<open>Event.data.correlation_id == correlation_id\<close>: the document has
  the key under \<^verbatim>\<open>data\<close> and its value equals the string.
\<close>

definition carries :: "string \<Rightarrow> event \<Rightarrow> bool" where
  "carries cid e = (map_of (payload e) ''correlation_id'' = Some (JStr cid))"

text \<open>
  \<^verbatim>\<open>sorted(results, key=..., reverse=True)\<close>: Python's sort is stable, and with
  \<^verbatim>\<open>reverse=True\<close> it reverses the list, sorts it ascending and stable, and reverses the
  result, so that elements with equal keys keep their order. \<^verbatim>\<open>xs[:limit]\<close> takes the
  first \<open>limit\<close> elements, and drops the last \<open>-limit\<close> ones when \<open>limit\<close> is negative.
\<close>

definition sorted_desc :: "event list \<Rightarrow> event list" where
  "sorted_desc results = rev (sort_key timestamp (rev results))"

definition py_slice_to :: "int \<Rightarrow> 'a list \<Rightarrow> 'a list" where
  "py_slice_to limit xs =
     (if 0 \<le> limit then take (nat limit) xs else take (length xs - nat (- limit)) xs)"

text \<open>
  \<^verbatim>\<open>get_recent_events\<close>, \<^verbatim>\<open>Agi_memory.py\<close> lines 25 to 39. The test
  \<^verbatim>\<open>if correlation_id:\<close> fails for \<^verbatim>\<open>None\<close> and for the empty string.
\<close>

definition get_recent_events :: "int \<Rightarrow> string option \<Rightarrow> event list \<Rightarrow> event list" where
  "get_recent_events limit correlation_id tinydb =
     (let results =
        (case correlation_id of
           None \<Rightarrow> tinydb
         | Some cid \<Rightarrow> if cid \<noteq> [] then filter (carries cid) tinydb else tinydb)
      in py_slice_to limit (sorted_desc results))"

subsection \<open>Status query\<close>

text \<open>
  \<^verbatim>\<open>get_document_status\<close>, \<^verbatim>\<open>Main.py\<close> lines 230 to 258 and \<^verbatim>\<open>Fastapi_main.py\<close>
  lines 204 to 229; the call uses the default limit 10. \<^verbatim>\<open>d.get(k, default)\<close> is
  \<open>dict_get\<close>; \<^verbatim>\<open>events[-1]\<close> is the last element of the list, read only when the
  list is not empty.
\<close>

definition dict_get :: "(string \<times> jval) list \<Rightarrow> string \<Rightarrow> jval \<Rightarrow> jval" where
  "dict_get d k dflt = (case map_of d k of Some v \<Rightarrow> v | None \<Rightarrow> dflt)"

record status_response =
  correlation_id :: string
  agi_processing_status :: string
  last_agi_action :: jval
  estimated_completion :: string
  extracted_insights_preview :: string
  agi_confidence_score :: string
  agi_event_history :: "event list"

definition get_document_status :: "string \<Rightarrow> event list \<Rightarrow> status_response" where
  "get_document_status cid tinydb =
     (let events = get_recent_events 10 (Some cid) tinydb;
          agi_status =
            (if events \<noteq> [] then event_type (last events) else ''Unknown'');
          last_action =
            (if events \<noteq> []
             then dict_get (payload (last events)) ''module''
                    (dict_get (payload (last events)) ''status''
                       (JStr ''No specific action data.''))
             else JStr ''No AGI action recorded yet.'')
      in \<lparr>correlation_id = cid,
          agi_processing_status = agi_status,
          last_agi_action = last_action,
          estimated_completion = ''AGI dynamically re-calibrating'',
          extracted_insights_preview = ''AGI continuously generating insights...'',
          agi_confidence_score = ''High (99.8%)'',
          agi_event_history = events\<rparr>)"

subsection \<open>Pipeline runner\<close>

text \<open>
  \<^verbatim>\<open>UploadMetadata\<close> (\<^verbatim>\<open>Main.py\<close> lines 35 to 43); every field is \<^verbatim>\<open>Optional\<close>.
  \<open>metadata_dict\<close> is \<^verbatim>\<open>initial_metadata.dict()\<close>.
\<close>

record upload_metadata =
  document_type :: "string option"
  priority :: "int option"
  tags :: "string list option"
  custom_options :: "(string \<times> jval) list option"

definition jopt :: "('a \<Rightarrow> jval) \<Rightarrow> 'a option \<Rightarrow> jval" where
  "jopt f x = (case x of None \<Rightarrow> JNull | Some v \<Rightarrow> f v)"

definition metadata_dict :: "upload_metadata \<Rightarrow> jval" where
  "metadata_dict md =
     JObj [(''document_type'', jopt JStr (document_type md)),
           (''priority'', jopt JInt (priority md)),
           (''tags'', jopt (\<lambda>ts. JList (map JStr ts)) (tags md)),
           (''custom_options'', jopt JObj (custom_options md))]"

text \<open>
  The exceptions the runner can meet, with \<^verbatim>\<open>str(e)\<close>: the \<^verbatim>\<open>TypeError\<close> and the
  \<^verbatim>\<open>OverflowError\<close> of \<^verbatim>\<open>initial_metadata.priority / 100\<close>, and the
  \<^verbatim>\<open>FileNotFoundError\<close> that \<^verbatim>\<open>shutil.move\<close> raises when the source does not exist.
\<close>

datatype py_exception = TypeError string | OverflowError string | FileNotFoundError string

definition priority_type_error :: py_exception where
  "priority_type_error =
     TypeError (''unsupported operand type(s) for /: '' @ [CHR 0x27] @ ''NoneType''
                @ [CHR 0x27] @ '' and '' @ [CHR 0x27] @ ''int'' @ [CHR 0x27])"

definition division_overflow_error :: py_exception where
  "division_overflow_error = OverflowError ''integer division result too large for a float''"

fun exc_str :: "py_exception \<Rightarrow> string" where
  "exc_str (TypeError msg) = msg"
| "exc_str (OverflowError msg) = msg"
| "exc_str (FileNotFoundError path) =
     ''[Errno 2] No such file or directory: '' @ py_repr path"

text \<open>
  The expression \<^verbatim>\<open>initial_metadata.priority / 100\<close> (\<^verbatim>\<open>Main.py\<close> line 132,
  \<^verbatim>\<open>Fastapi_main.py\<close> line 138), as the exception it raises, if any. The priority is
  \<^verbatim>\<open>Optional[int]\<close>, an unbounded integer or \<^verbatim>\<open>None\<close>. For \<^verbatim>\<open>None\<close> the division
  raises a \<^verbatim>\<open>TypeError\<close>. For an integer it returns the quotient rounded to the nearest
  double, ties to even, and raises an \<^verbatim>\<open>OverflowError\<close> when that is not finite: when
  the quotient reaches the midpoint \<open>2 ^ 1024 - 2 ^ 970\<close> between the largest double
  \<open>2 ^ 1024 - 2 ^ 971\<close> and \<open>2 ^ 1024\<close>, in absolute value. The quotient itself is
  used only as a part of the delay of \<^verbatim>\<open>asyncio.sleep\<close>, so it is not kept.
\<close>

definition float_overflow_bound :: int where
  "float_overflow_bound = 100 * (2 ^ 1024 - 2 ^ 970)"

definition priority_over_100 :: "int option \<Rightarrow> py_exception option" where
  "priority_over_100 p =
     (case p of
        None \<Rightarrow> Some priority_type_error
      | Some n \<Rightarrow>
          if float_overflow_bound \<le> \<bar>n\<bar> then Some division_overflow_error else None)"

text \<open>
  The state the services act on: the TinyDB documents, the files by path, the number of
  clock readings taken so far, and the handlers registered with
  \<^verbatim>\<open>app.add_event_handler("startup", ...)\<close>, each the arguments of the pipeline run it
  would start. The clock is a function from the number of the reading to the text that
  \<^verbatim>\<open>datetime.now().isoformat()\<close> returns.
\<close>

record world =
  db :: "event list"
  fs :: "string \<Rightarrow> string option"
  ticks :: nat
  on_startup :: "(string \<times> upload_metadata \<times> string) list"

definition log_event ::
  "(nat \<Rightarrow> string) \<Rightarrow> string \<Rightarrow> (string \<times> jval) list \<Rightarrow> world \<Rightarrow> world" where
  "log_event clock ty d w =
     w\<lparr>db := store_event (clock (ticks w)) ty d (db w), ticks := Suc (ticks w)\<rparr>"

text \<open>
  \<^verbatim>\<open>shutil.move(src, dst)\<close> for a file and a destination path that is not a directory:
  the file is renamed, replacing what was at the destination.
\<close>

definition shutil_move :: "string \<Rightarrow> string \<Rightarrow> world \<Rightarrow> py_exception + world" where
  "shutil_move src dst w =
     (case fs w src of
        None \<Rightarrow> Inl (FileNotFoundError src)
      | Some content \<Rightarrow> Inr (w\<lparr>fs := ((fs w)(src := None))(dst \<mapsto> content)\<rparr>))"

text \<open>
  The loop over \<^verbatim>\<open>processing_modules\<close>, \<^verbatim>\<open>Main.py\<close> lines 128 to 142 and
  \<^verbatim>\<open>Fastapi_main.py\<close> lines 136 to 139. The argument of \<^verbatim>\<open>asyncio.sleep\<close> is computed
  first, at every stage, and what it raises leaves the loop before the
  \<^verbatim>\<open>module_execution\<close> event of the stage is stored. The sum with \<^verbatim>\<open>0.1\<close> is a sum of
  doubles and raises nothing; the sleep itself, which returns after the delay, and the
  second sleep of the high-risk branch of \<^verbatim>\<open>Main.py\<close> (whose \<^verbatim>\<open>raise\<close> is commented
  out), change nothing. The result is the exception raised, if any, and the state reached.
\<close>

fun run_modules ::
  "(nat \<Rightarrow> string) \<Rightarrow> upload_metadata \<Rightarrow> string \<Rightarrow> string list \<Rightarrow> world
    \<Rightarrow> py_exception option \<times> world" where
  "run_modules clock md cid [] w = (None, w)"
| "run_modules clock md cid (module_name # rest) w =
     (case priority_over_100 (priority md) of
        Some e \<Rightarrow> (Some e, w)
      | None \<Rightarrow>
          run_modules clock md cid rest
            (log_event clock ''module_execution''
               [(''correlation_id'', JStr cid), (''module'', JStr module_name),
                (''status'', JStr ''completed'')] w))"

text \<open>
  Step 4 and the learning event, \<^verbatim>\<open>Main.py\<close> lines 148 to 161 and \<^verbatim>\<open>Fastapi_main.py\<close>
  lines 141 to 147, the same in both files: the move to the destination of the category
  and the two events that follow it. A move that raises leaves the state as it is.
\<close>

definition integrate_output ::
  "(nat \<Rightarrow> string) \<Rightarrow> string \<Rightarrow> string \<Rightarrow> string \<Rightarrow> world \<Rightarrow> py_exception option \<times> world" where
  "integrate_output clock file_path cid ty w =
     (let final_path = path_join (final_processed_dir ty) (basename file_path)
      in case shutil_move file_path final_path w of
           Inl e \<Rightarrow> (Some e, w)
         | Inr w' \<Rightarrow>
             (None,
              log_event clock ''agi_learning_cycle''
                [(''correlation_id'', JStr cid), (''status'', JStr ''re-theorizing completed'')]
                (log_event clock ''document_processing_complete''
                   [(''correlation_id'', JStr cid), (''final_path'', JStr final_path)] w')))"

text \<open>
  The body of the \<^verbatim>\<open>try\<close> statement of \<^verbatim>\<open>Main.py\<close>, lines 81 to 161:
  classification, assembly of the workflow, the stage loop, and step 4.
\<close>

definition try_block ::
  "(nat \<Rightarrow> string) \<Rightarrow> string \<Rightarrow> upload_metadata \<Rightarrow> string \<Rightarrow> world
    \<Rightarrow> py_exception option \<times> world" where
  "try_block clock file_path md cid w =
     (let ty = agi_determined_type file_path (tags md);
          w1 = log_event clock ''document_classification''
                 [(''correlation_id'', JStr cid), (''agi_determined_type'', JStr ty)] w;
          modules = processing_modules ty;
          w2 = log_event clock ''workflow_assembly''
                 [(''correlation_id'', JStr cid), (''workflow'', JList (map JStr modules))] w1
      in case run_modules clock md cid modules w2 of
           (Some e, w3) \<Rightarrow> (Some e, w3)
         | (None, w3) \<Rightarrow> integrate_output clock file_path cid ty w3)"

text \<open>
  The body of the \<^verbatim>\<open>try\<close> statement of \<^verbatim>\<open>Fastapi_main.py\<close>, lines 122 to 147: its
  own classifier and registry, and no \<^verbatim>\<open>workflow_assembly\<close> event.
\<close>

definition try_block_fastapi ::
  "(nat \<Rightarrow> string) \<Rightarrow> string \<Rightarrow> upload_metadata \<Rightarrow> string \<Rightarrow> world
    \<Rightarrow> py_exception option \<times> world" where
  "try_block_fastapi clock file_path md cid w =
     (let ty = agi_determined_type_fastapi file_path (tags md);
          w1 = log_event clock ''document_classification''
                 [(''correlation_id'', JStr cid), (''agi_determined_type'', JStr ty)] w;
          modules = processing_modules_fastapi ty
      in case run_modules clock md cid modules w1 of
           (Some e, w2) \<Rightarrow> (Some e, w2)
         | (None, w2) \<Rightarrow> integrate_output clock file_path cid ty w2)"

text \<open>
  The \<^verbatim>\<open>except Exception\<close> handler, \<^verbatim>\<open>Main.py\<close> lines 164 to 173 and
  \<^verbatim>\<open>Fastapi_main.py\<close> lines 149 to 154, the same in both files. An exception raised
  inside the handler leaves the function; the result then holds it.
\<close>

definition except_handler ::
  "(nat \<Rightarrow> string) \<Rightarrow> string \<Rightarrow> string \<Rightarrow> py_exception \<Rightarrow> world
    \<Rightarrow> py_exception option \<times> world" where
  "except_handler clock file_path cid e w =
     (let quarantine_path = path_join quarantine_dir (basename file_path)
      in case shutil_move file_path quarantine_path w of
           Inl e' \<Rightarrow> (Some e', w)
         | Inr w' \<Rightarrow>
             (None,
              log_event clock ''document_processing_error''
                [(''correlation_id'', JStr cid), (''error'', JStr (exc_str e)),
                 (''quarantined_path'', JStr quarantine_path)] w'))"

text \<open>
  \<^verbatim>\<open>dynamic_document_processor\<close> of \<^verbatim>\<open>Main.py\<close> (lines 60 to 173) and of
  \<^verbatim>\<open>Fastapi_main.py\<close> (lines 109 to 154): the start event, the \<^verbatim>\<open>try\<close> body, and
  the handler when the body raised. The result is the exception that leaves the function,
  if any, and the state reached.
\<close>

definition dynamic_document_processor ::
  "(nat \<Rightarrow> string) \<Rightarrow> string \<Rightarrow> upload_metadata \<Rightarrow> string \<Rightarrow> world
    \<Rightarrow> py_exception option \<times> world" where
  "dynamic_document_processor clock file_path md cid w =
     (let w0 = log_event clock ''document_ingestion_start''
                 [(''correlation_id'', JStr cid), (''file_path'', JStr file_path),
                  (''metadata'', metadata_dict md)] w
      in case try_block clock file_path md cid w0 of
           (None, w1) \<Rightarrow> (None, w1)
         | (Some e, w1) \<Rightarrow> except_handler clock file_path cid e w1)"

definition dynamic_document_processor_fastapi ::
  "(nat \<Rightarrow> string) \<Rightarrow> string \<Rightarrow> upload_metadata \<Rightarrow> string \<Rightarrow> world
    \<Rightarrow> py_exception option \<times> world" where
  "dynamic_document_processor_fastapi clock file_path md cid w =
     (let w0 = log_event clock ''document_ingestion_start''
                 [(''correlation_id'', JStr cid), (''file_path'', JStr file_path),
                  (''metadata'', metadata_dict md)] w
      in case try_block_fastapi clock file_path md cid w0 of
           (None, w1) \<Rightarrow> (None, w1)
         | (Some e, w1) \<Rightarrow> except_handler clock file_path cid e w1)"

subsection \<open>Ingestion\<close>

text \<open>
  \<^verbatim>\<open>ingest_document\<close>, \<^verbatim>\<open>Main.py\<close> lines 177 to 220 and \<^verbatim>\<open>Fastapi_main.py\<close> lines 159
  to 194. The arguments are the file name and the bytes of the upload, the metadata, the
  text of \<^verbatim>\<open>uuid.uuid4()\<close>, and what writing the staged file does: \<^verbatim>\<open>None\<close> when it
  succeeds, the text of the exception otherwise. The result is the HTTP error detail or
  the JSON response, and the state. The pipeline run is not started: a handler for the
  \<^verbatim>\<open>startup\<close> event is registered.
\<close>

definition initial_save_path :: "string \<Rightarrow> string \<Rightarrow> string" where
  "initial_save_path cid filename =
     path_join temp_staging_dir (cid @ ''_'' @ sanitize_filename filename)"

record ingest_response =
  message :: string
  response_correlation_id :: string
  filename :: string
  agi_status_endpoint :: string

definition ingest_document ::
  "(nat \<Rightarrow> string) \<Rightarrow> string \<Rightarrow> string \<Rightarrow> upload_metadata \<Rightarrow> string \<Rightarrow> string option \<Rightarrow> world
    \<Rightarrow> (string + ingest_response) \<times> world" where
  "ingest_document clock name content md cid write_fault w =
     (let sanitized_filename = sanitize_filename name;
          path = initial_save_path cid name
      in case write_fault of
           Some e \<Rightarrow>
             (Inl (''Federated AGI failed to ingest document: '' @ e),
              log_event clock ''document_ingestion_error''
                [(''correlation_id'', JStr cid), (''error'', JStr e),
                 (''filename'', JStr sanitized_filename)] w)
         | None \<Rightarrow>
             (Inr \<lparr>message =
                     ''Document received by Federated AGI. Autonomous processing initiated.'',
                   response_correlation_id = cid,
                   filename = sanitized_filename,
                   agi_status_endpoint = ''/document_status/'' @ cid\<rparr>,
              w\<lparr>fs := (fs w)(path \<mapsto> content),
                on_startup := on_startup w @ [(path, md, cid)]\<rparr>))"

subsection \<open>Creative cycle: transformation and amplification\<close>

text \<open>
  The creative construct is a dictionary; the keys that \<^verbatim>\<open>transform\<close> reads or writes
  are the fields of the record (the key \<^verbatim>\<open>value\<close> is the field \<open>c_value\<close>), absent
  when \<^verbatim>\<open>None\<close>, and the other keys travel in the
  extension of the record. \<^verbatim>\<open>str.upper()\<close> is applied to the mode names only, which are
  ASCII; below 256 it moves a to z and the lower-case letters of the Latin-1 block that
  have an upper-case partner there down by 32.
\<close>

record construct =
  c_value :: "string option"
  iteration_count :: "int option"
  transformation_applied :: "string option"

definition upper_char :: "char \<Rightarrow> char" where
  "upper_char c =
     (let n = (of_char c :: nat)
      in if (97 \<le> n \<and> n \<le> 122) \<or> (224 \<le> n \<and> n \<le> 254 \<and> n \<noteq> 247)
         then char_of (n - 32) else c)"

definition py_upper :: "string \<Rightarrow> string" where
  "py_upper s = map upper_char s"

definition transformation_modes :: "string list" where
  "transformation_modes = [''stylistic'', ''modal'', ''conceptual'', ''syntactic'']"

text \<open>
  \<^verbatim>\<open>TransformationEngine.transform\<close>, \<^verbatim>\<open>Transformation_engine.py\<close> lines 12 to 30.
  Python's \<^verbatim>\<open>%\<close> with a positive divisor is never negative, as \<open>mod\<close> on \<^typ>\<open>int\<close>.
\<close>

definition transform :: "'a construct_scheme \<Rightarrow> 'a construct_scheme" where
  "transform d =
     (let current_value = (case c_value d of Some v \<Rightarrow> v | None \<Rightarrow> []);
          count = (case iteration_count d of Some n \<Rightarrow> n | None \<Rightarrow> 0);
          transformation_mode =
            transformation_modes ! nat (count mod int (length transformation_modes))
      in d\<lparr>c_value := Some (''['' @ py_upper transformation_mode @ ''::Transformed::''
                               @ current_value @ '']''),
           transformation_applied := Some transformation_mode,
           iteration_count := Some (count + 1)\<rparr>)"

text \<open>
  \<^verbatim>\<open>RecursiveAmplifier.amplify\<close>, \<^verbatim>\<open>Recursive_amplifier.py\<close> lines 13 to 26: the loop
  \<^verbatim>\<open>for i in range(self.depth)\<close> runs \<open>depth\<close> times, and not at all for a depth below
  one.
\<close>

fun amplify_loop :: "nat \<Rightarrow> 'a construct_scheme \<Rightarrow> 'a construct_scheme" where
  "amplify_loop 0 current = current"
| "amplify_loop (Suc n) current = amplify_loop n (transform current)"

definition amplify :: "int \<Rightarrow> 'a construct_scheme \<Rightarrow> 'a construct_scheme" where
  "amplify depth seed = amplify_loop (nat depth) seed"

section \<open>Properties\<close>

subsection \<open>Stage registry\<close>

text \<open>
  Claim C8. Whatever the category, the stage registry resolves to a non-empty ordered stage
  list; the category contract resolves to exactly deep_ocr_segmentation,
  semantic_clause_extraction, entity_resolution_graph_update,
  predictive_risk_assessment_model, and the category unknown resolves to the fallback list
  general_content_indexing, topic_modeling_discovery. This holds for the registry of
  \<^verbatim>\<open>Main.py\<close> and for the one of \<^verbatim>\<open>Fastapi_main.py\<close>.
\<close>

theorem stage_registry_resolves:
  "processing_modules category \<noteq> []
   \<and> processing_modules_fastapi category \<noteq> []
   \<and> processing_modules ''contract'' =
       [''deep_ocr_segmentation'', ''semantic_clause_extraction'',
        ''entity_resolution_graph_update'', ''predictive_risk_assessment_model'']
   \<and> processing_modules_fastapi ''contract'' =
       [''deep_ocr_segmentation'', ''semantic_clause_extraction'',
        ''entity_resolution_graph_update'', ''predictive_risk_assessment_model'']
   \<and> processing_modules ''unknown'' =
       [''general_content_indexing'', ''topic_modeling_discovery'']
   \<and> processing_modules_fastapi ''unknown'' =
       [''general_content_indexing'', ''topic_modeling_discovery'']"
  by (simp add: processing_modules_def processing_modules_fastapi_def)

subsection \<open>Searching a keyword in the rendered tag list\<close>

text \<open>
  A character that does not occur in the keyword cuts the search in two: an occurrence
  of the keyword cannot span it.
\<close>

lemma prefix_sep:
  assumes "c \<notin> set p"
  shows "prefix p (s @ c # b) \<longleftrightarrow> prefix p s"
  using assms by (auto simp: prefix_append prefix_Cons)

lemma sublist_sep:
  assumes "c \<notin> set p"
  shows "sublist p (a @ c # b) \<longleftrightarrow> sublist p a \<or> sublist p b"
proof (induction a)
  case Nil
  have "prefix p (c # b) \<longleftrightarrow> p = []"
    using assms by (auto simp: prefix_Cons)
  then show ?case
    by (auto simp: sublist_Cons_right)
next
  case (Cons x a)
  have "prefix p ((x # a) @ c # b) \<longleftrightarrow> prefix p (x # a)"
    using assms by (rule prefix_sep)
  with Cons show ?case
    by (auto simp: sublist_Cons_right)
qed

lemma sublist_seps:
  assumes "set blk \<inter> set p = {}" and "p \<noteq> []"
  shows "sublist p (blk @ b) \<longleftrightarrow> sublist p b"
  using assms
proof (induction blk)
  case Nil
  then show ?case by simp
next
  case (Cons c blk)
  then have "c \<notin> set p" by auto
  from sublist_sep [OF this, of "[]" "blk @ b"] Cons show ?case
    by auto
qed

text \<open>
  A text is rewritten character by character: a character whose image under \<open>g\<close> lies
  in \<open>P\<close> is kept, every other character becomes a non-empty block of characters whose
  images lie outside \<open>P\<close>. A keyword over \<open>P\<close> then occurs in the image of the rewritten
  text exactly when it occurs in the image of the text.
\<close>

lemma blocks_prefix:
  assumes keep: "\<And>c. c \<in> set t \<Longrightarrow> g c \<in> P \<Longrightarrow> f c = [c]"
    and esc: "\<And>c. c \<in> set t \<Longrightarrow> g c \<notin> P \<Longrightarrow> f c \<noteq> [] \<and> (\<forall>d \<in> set (f c). g d \<notin> P)"
    and sub: "set p \<subseteq> P"
  shows "prefix p (map g (concat (map f t))) \<longleftrightarrow> prefix p (map g t)"
  using assms
proof (induction t arbitrary: p)
  case Nil
  then show ?case by simp
next
  case (Cons c t)
  show ?case
  proof (cases p)
    case Nil
    then show ?thesis by simp
  next
    case (Cons a p')
    note p = this
    have a: "a \<in> P" and p': "set p' \<subseteq> P"
      using Cons.prems(3) p by auto
    have ih: "prefix p' (map g (concat (map f t))) \<longleftrightarrow> prefix p' (map g t)"
      by (rule Cons.IH) (use Cons.prems p' in auto)
    show ?thesis
    proof (cases "g c \<in> P")
      case True
      then have "f c = [c]" using Cons.prems(1) by simp
      then show ?thesis using ih p by simp
    next
      case False
      then have ne: "f c \<noteq> []" and irr: "\<forall>d \<in> set (f c). g d \<notin> P"
        using Cons.prems(2) [of c] by auto
      then obtain d ds where fc: "f c = d # ds" by (cases "f c") auto
      with irr have "g d \<notin> P" by simp
      with a have "a \<noteq> g d" by auto
      moreover from a False have "a \<noteq> g c" by auto
      ultimately show ?thesis using p fc by simp
    qed
  qed
qed

lemma blocks_sublist:
  assumes keep: "\<And>c. c \<in> set t \<Longrightarrow> g c \<in> P \<Longrightarrow> f c = [c]"
    and esc: "\<And>c. c \<in> set t \<Longrightarrow> g c \<notin> P \<Longrightarrow> f c \<noteq> [] \<and> (\<forall>d \<in> set (f c). g d \<notin> P)"
    and sub: "set p \<subseteq> P" and ne: "p \<noteq> []"
  shows "sublist p (map g (concat (map f t))) \<longleftrightarrow> sublist p (map g t)"
  using assms
proof (induction t)
  case Nil
  then show ?case by simp
next
  case (Cons c t)
  have ih: "sublist p (map g (concat (map f t))) \<longleftrightarrow> sublist p (map g t)"
    by (rule Cons.IH) (use Cons.prems in auto)
  show ?case
  proof (cases "g c \<in> P")
    case True
    then have fc: "f c = [c]" using Cons.prems(1) by simp
    have "prefix p (map g (concat (map f (c # t)))) \<longleftrightarrow> prefix p (map g (c # t))"
      by (rule blocks_prefix [where P = P]) (use Cons.prems in auto)
    then show ?thesis using ih fc by (simp add: sublist_Cons_right)
  next
    case False
    then have irr: "\<forall>d \<in> set (f c). g d \<notin> P"
      using Cons.prems(2) [of c] by auto
    then have "set (map g (f c)) \<inter> set p = {}"
      using Cons.prems(3) by auto
    then have l: "sublist p (map g (f c) @ map g (concat (map f t)))
        \<longleftrightarrow> sublist p (map g (concat (map f t)))"
      using Cons.prems(4) by (rule sublist_seps)
    have "g c \<notin> set p" using False Cons.prems(3) by auto
    from sublist_sep [OF this, of "[]" "map g t"] Cons.prems(4)
    have r: "sublist p (map g (c # t)) \<longleftrightarrow> sublist p (map g t)" by simp
    show ?thesis using l r ih by simp
  qed
qed

text \<open>What \<^verbatim>\<open>repr\<close> and \<^verbatim>\<open>lower\<close> do to printable characters and to the letters of the
  two tag keywords.\<close>

lemma printable_not_ctl:
  "py_isprintable c \<Longrightarrow> c \<noteq> CHR 0x09 \<and> c \<noteq> CHR 0x0A \<and> c \<noteq> CHR 0x0D"
  by (auto simp: py_isprintable_def)

lemma repr_char_printable:
  "py_isprintable c \<Longrightarrow>
     repr_char q c = (if c = q \<or> c = CHR 0x5C then [CHR 0x5C, c] else [c])"
  using printable_not_ctl [of c] by (simp add: repr_char_def)

lemma lower_char_code:
  "(of_char (lower_char c) :: nat) = of_char c
   \<or> (of_char (lower_char c) :: nat) = of_char c + 32"
  by (auto simp: lower_char_def Let_def)

lemma lower_legal:
  assumes "lower_char c \<in> set ''legal''"
  shows "c \<in> set ''legalLEGAL''"
proof -
  have "(of_char (lower_char c) :: nat) \<in> {108, 101, 103, 97}"
    using assms by auto
  then have "(of_char c :: nat) \<in> {108, 101, 103, 97, 76, 69, 71, 65}"
    using lower_char_code [of c] by auto
  then have "(of_char c :: nat) \<in> of_char ` set ''legalLEGAL''"
    by auto
  then show ?thesis
    by (auto simp del: list.set)
qed

lemma lower_billing:
  assumes "lower_char c \<in> set ''billing''"
  shows "c \<in> set ''billingBILLING''"
proof -
  have "(of_char (lower_char c) :: nat) \<in> {98, 105, 108, 110, 103}"
    using assms by auto
  then have "(of_char c :: nat) \<in> {98, 105, 108, 110, 103, 66, 73, 76, 78, 71}"
    using lower_char_code [of c] by auto
  then have "(of_char c :: nat) \<in> of_char ` set ''billingBILLING''"
    by auto
  then show ?thesis
    by (auto simp del: list.set)
qed

lemma repr_char_legal:
  assumes "py_isprintable c" "q = CHR 0x27 \<or> q = CHR 0x22"
  shows "(lower_char c \<in> set ''legal'' \<longrightarrow> repr_char q c = [c]) \<and>
      (lower_char c \<notin> set ''legal'' \<longrightarrow>
         repr_char q c \<noteq> [] \<and> (\<forall>d \<in> set (repr_char q c). lower_char d \<notin> set ''legal''))"
proof -
  have bs: "lower_char (CHR 0x5C) = CHR 0x5C" by (simp add: lower_char_def)
  show ?thesis
    using lower_legal [of c] assms(2) by (auto simp: repr_char_printable [OF assms(1)] bs)
qed

lemma repr_char_billing:
  assumes "py_isprintable c" "q = CHR 0x27 \<or> q = CHR 0x22"
  shows "(lower_char c \<in> set ''billing'' \<longrightarrow> repr_char q c = [c]) \<and>
      (lower_char c \<notin> set ''billing'' \<longrightarrow>
         repr_char q c \<noteq> [] \<and> (\<forall>d \<in> set (repr_char q c). lower_char d \<notin> set ''billing''))"
proof -
  have bs: "lower_char (CHR 0x5C) = CHR 0x5C" by (simp add: lower_char_def)
  show ?thesis
    using lower_billing [of c] assms(2) by (auto simp: repr_char_printable [OF assms(1)] bs)
qed

text \<open>From one tag to the rendered list.\<close>

lemma repr_search:
  assumes chars: "\<And>c q. py_isprintable c \<Longrightarrow> q = CHR 0x27 \<or> q = CHR 0x22 \<Longrightarrow>
      (lower_char c \<in> set kw \<longrightarrow> repr_char q c = [c]) \<and>
      (lower_char c \<notin> set kw \<longrightarrow>
         repr_char q c \<noteq> [] \<and> (\<forall>d \<in> set (repr_char q c). lower_char d \<notin> set kw))"
    and quotes: "lower_char (CHR 0x27) \<notin> set kw" "lower_char (CHR 0x22) \<notin> set kw"
    and ne: "kw \<noteq> []"
    and pr: "\<forall>c \<in> set t. py_isprintable c"
  shows "sublist kw (py_lower (py_repr t)) \<longleftrightarrow> sublist kw (py_lower t)"
proof -
  define q where "q = repr_quote t"
  have q: "q = CHR 0x27 \<or> q = CHR 0x22"
    by (simp add: q_def repr_quote_def)
  then have lq: "lower_char q \<notin> set kw"
    using quotes by auto
  let ?body = "map lower_char (concat (map (repr_char q) t))"
  have body: "sublist kw ?body \<longleftrightarrow> sublist kw (map lower_char t)"
  proof (rule blocks_sublist [where P = "set kw"])
    show "repr_char q c = [c]" if "c \<in> set t" "lower_char c \<in> set kw" for c
      using that chars [of c q] pr q by blast
    show "repr_char q c \<noteq> [] \<and> (\<forall>d \<in> set (repr_char q c). lower_char d \<notin> set kw)"
      if "c \<in> set t" "lower_char c \<notin> set kw" for c
      using that chars [of c q] pr q by blast
  qed (use ne in simp_all)
  have "py_lower (py_repr t) = [] @ lower_char q # (?body @ [lower_char q])"
    by (simp add: py_lower_def py_repr_def q_def)
  then have "sublist kw (py_lower (py_repr t)) \<longleftrightarrow> sublist kw (?body @ [lower_char q])"
    using sublist_sep [OF lq, of "[]" "?body @ [lower_char q]"] ne by simp
  also have "\<dots> \<longleftrightarrow> sublist kw ?body"
    using sublist_sep [OF lq, of ?body "[]"] ne by simp
  finally show ?thesis
    using body by (simp add: py_lower_def)
qed

lemma join_comma_search:
  assumes sep: "CHR '','' \<notin> set kw" "CHR '' '' \<notin> set kw" and ne: "kw \<noteq> []"
    and each: "\<And>t. t \<in> set ts \<Longrightarrow> sublist kw (py_lower (r t)) \<longleftrightarrow> sublist kw (py_lower t)"
  shows "sublist kw (py_lower (join_comma (map r ts)))
    \<longleftrightarrow> (\<exists>t \<in> set ts. sublist kw (py_lower t))"
  using each
proof (induction ts rule: join_comma.induct)
  case 1
  then show ?case using ne by (simp add: py_lower_def)
next
  case (2 x)
  then show ?case by simp
next
  case (3 x y ys)
  have ih: "sublist kw (py_lower (join_comma (map r (y # ys)))) \<longleftrightarrow>
      (\<exists>t \<in> set (y # ys). sublist kw (py_lower t))"
    by (rule "3.IH") (use "3.prems" in auto)
  have lc: "lower_char (CHR '','') = CHR '',''" "lower_char (CHR '' '') = CHR '' ''"
    by (simp_all add: lower_char_def)
  let ?rest = "py_lower (join_comma (map r (y # ys)))"
  have "py_lower (join_comma (map r (x # y # ys)))
      = py_lower (r x) @ CHR '','' # ([] @ CHR '' '' # ?rest)"
    by (simp add: py_lower_def lc)
  then have "sublist kw (py_lower (join_comma (map r (x # y # ys)))) \<longleftrightarrow>
      sublist kw (py_lower (r x)) \<or> sublist kw ?rest"
    using sublist_sep [OF sep(1), of "py_lower (r x)" "[] @ CHR '' '' # ?rest"]
      sublist_sep [OF sep(2), of "[]" ?rest] ne by simp
  then show ?case
    using ih "3.prems" [of x] by auto
qed

lemma str_tags_search:
  assumes chars: "\<And>c q. py_isprintable c \<Longrightarrow> q = CHR 0x27 \<or> q = CHR 0x22 \<Longrightarrow>
      (lower_char c \<in> set kw \<longrightarrow> repr_char q c = [c]) \<and>
      (lower_char c \<notin> set kw \<longrightarrow>
         repr_char q c \<noteq> [] \<and> (\<forall>d \<in> set (repr_char q c). lower_char d \<notin> set kw))"
    and seps: "set kw \<inter> set (CHR 0x27 # CHR 0x22 # '', []'') = {}"
    and ne: "kw \<noteq> []"
    and pr: "\<forall>t \<in> set tag_list. \<forall>c \<in> set t. py_isprintable c"
  shows "py_in kw (py_lower (py_str_tags (Some tag_list))) \<longleftrightarrow> tag_contains kw tag_list"
proof -
  have lc: "lower_char (CHR 0x27) = CHR 0x27" "lower_char (CHR 0x22) = CHR 0x22"
    "lower_char (CHR ''['') = CHR ''[''" "lower_char (CHR '']'') = CHR '']''"
    by (simp_all add: lower_char_def)
  have quotes: "lower_char (CHR 0x27) \<notin> set kw" "lower_char (CHR 0x22) \<notin> set kw"
    and sep: "CHR '','' \<notin> set kw" "CHR '' '' \<notin> set kw"
    and br: "CHR ''['' \<notin> set kw" "CHR '']'' \<notin> set kw"
    using seps by (auto simp: lc)
  let ?items = "py_lower (join_comma (map py_repr tag_list))"
  have items: "sublist kw ?items \<longleftrightarrow> (\<exists>t \<in> set tag_list. sublist kw (py_lower t))"
    by (rule join_comma_search [OF sep ne]) (rule repr_search [OF chars quotes ne], use pr in auto)
  have "py_lower (py_str_tags (Some tag_list)) = [] @ CHR ''['' # (?items @ [CHR '']''])"
    by (simp add: py_str_tags_def py_lower_def lc)
  then have "sublist kw (py_lower (py_str_tags (Some tag_list)))
      \<longleftrightarrow> sublist kw (?items @ [CHR '']''])"
    using sublist_sep [OF br(1), of "[]" "?items @ [CHR '']'']"] ne by simp
  also have "\<dots> \<longleftrightarrow> sublist kw ?items"
    using sublist_sep [OF br(2), of ?items "[]"] ne by simp
  finally show ?thesis
    using items by (simp add: py_in_def tag_contains_def)
qed

lemma legal_in_tags:
  assumes "\<forall>t \<in> set tag_list. \<forall>c \<in> set t. py_isprintable c"
  shows "py_in ''legal'' (py_lower (py_str_tags (Some tag_list))) \<longleftrightarrow> tag_contains ''legal'' tag_list"
  by (rule str_tags_search [OF repr_char_legal _ _ assms]) simp_all

lemma billing_in_tags:
  assumes "\<forall>t \<in> set tag_list. \<forall>c \<in> set t. py_isprintable c"
  shows "py_in ''billing'' (py_lower (py_str_tags (Some tag_list)))
    \<longleftrightarrow> tag_contains ''billing'' tag_list"
  by (rule str_tags_search [OF repr_char_billing _ _ assms]) simp_all

lemma none_tags_signal:
  "\<not> py_in ''legal'' (py_lower (py_str_tags None))"
  "\<not> py_in ''billing'' (py_lower (py_str_tags None))"
  by code_simp+

subsection \<open>Classifier\<close>

text \<open>
  Claim C4, as the code has it. The classifier of \<^verbatim>\<open>Main.py\<close> is a function of the path
  and the tags, and it is the first-match rule list of the specification (contract or
  agreement in the lower-cased path, or a tag containing legal: contract; otherwise invoice
  in the path or a tag containing billing: invoice; otherwise research or paper in the
  path: research_paper; otherwise unknown), for every path and every tag list whose tags
  hold printable characters only, and for absent tags, which count as no tag. The
  classifier of \<^verbatim>\<open>Fastapi_main.py\<close> is the list of the first two rules under the same
  condition.
\<close>

theorem classifier_first_match:
  assumes "\<forall>t \<in> set tag_list. \<forall>c \<in> set t. py_isprintable c"
  shows "agi_determined_type file_path (Some tag_list) = spec_classify (py_lower file_path) tag_list
    \<and> agi_determined_type file_path None = spec_classify (py_lower file_path) []
    \<and> agi_determined_type_fastapi file_path (Some tag_list)
        = first_match (take 2 spec_rules) (py_lower file_path) tag_list"
  by (simp add: agi_determined_type_def agi_determined_type_fastapi_def spec_classify_def
      spec_rules_def legal_in_tags [OF assms] billing_in_tags [OF assms] none_tags_signal
      tag_contains_def)

theorem classifier_first_match_witness:
  "agi_determined_type ''random_notes.txt'' (Some [''Billing'', ''q3''])
       = spec_classify (py_lower ''random_notes.txt'') [''Billing'', ''q3'']
   \<and> spec_classify (py_lower ''random_notes.txt'') [''Billing'', ''q3''] = ''invoice''"
proof -
  have h: "\<forall>t \<in> set [''Billing'', ''q3'']. \<forall>c \<in> set t. py_isprintable c"
    by (simp add: py_isprintable_def)
  have v: "spec_classify (py_lower ''random_notes.txt'') [''Billing'', ''q3''] = ''invoice''"
    by code_simp
  show ?thesis
    using v classifier_first_match [OF h, of "''random_notes.txt''"] by blast
qed

text \<open>
  The claim as stated fails for a tag with a control character: the vertical tab is
  rendered as \<^verbatim>\<open>\x0b\<close>, whose last character starts the keyword billing in the
  rendered list, although no tag contains the keyword.
\<close>

theorem classifier_tag_counterexample:
  "agi_determined_type ''random_notes.txt'' (Some [CHR 0x0B # ''illing'']) = ''invoice''
   \<and> \<not> tag_contains ''billing'' [CHR 0x0B # ''illing'']
   \<and> spec_classify (py_lower ''random_notes.txt'') [CHR 0x0B # ''illing''] = ''unknown''"
  by code_simp

subsection \<open>File name sanitisation\<close>

lemma basename_no_slash: "CHR ''/'' \<notin> set (basename p)"
  by (auto simp: basename_def dest: set_takeWhileD)

lemma basename_join:
  assumes "CHR ''/'' \<notin> set name"
  shows "basename (dir @ ''/'' @ name) = name"
proof -
  have "takeWhile (\<lambda>c. c \<noteq> CHR ''/'') (rev name @ CHR ''/'' # rev dir) = rev name"
    using assms by (subst takeWhile_append2) auto
  then show ?thesis by (simp add: basename_def)
qed

lemma replace_dotdot_set: "set (replace_dotdot s) \<subseteq> insert (CHR ''_'') (set s)"
  by (induction s rule: replace_dotdot.induct) auto

lemma replace_dotdot_head:
  "b \<noteq> CHR ''.'' \<Longrightarrow> replace_dotdot (b # cs) = b # replace_dotdot cs"
  by (cases cs) simp_all

lemma replace_dotdot_clean: "\<not> sublist ''..'' (replace_dotdot s)"
proof (induction s rule: replace_dotdot.induct)
  case (1 a b cs)
  show ?case
  proof (cases "a = CHR ''.'' \<and> b = CHR ''.''")
    case True
    with 1 show ?thesis by (simp add: sublist_Cons_right)
  next
    case False
    with 1 have ih: "\<not> sublist ''..'' (replace_dotdot (b # cs))" by simp
    have "\<not> prefix ''..'' (a # replace_dotdot (b # cs))"
    proof (cases "a = CHR ''.''")
      case True
      with False have "b \<noteq> CHR ''.''" by simp
      then show ?thesis by (simp add: replace_dotdot_head)
    next
      case False
      then show ?thesis by simp
    qed
    moreover have "replace_dotdot (a # b # cs) = a # replace_dotdot (b # cs)"
      using False by auto
    ultimately show ?thesis using ih by (simp only: sublist_Cons_right) simp
  qed
qed (simp_all add: sublist_Cons_right)

lemma py_strip_sublist: "sublist (py_strip s) s"
proof -
  have "sublist (dropWhile py_isspace (rev (dropWhile py_isspace s))) (rev (dropWhile py_isspace s))"
    by simp
  then have "sublist (py_strip s) (dropWhile py_isspace s)"
    by (simp add: py_strip_def sublist_rev_left)
  moreover have "sublist (dropWhile py_isspace s) s" by simp
  ultimately show ?thesis by (rule sublist_order.order_trans)
qed

lemma sanitize_no_slash: "CHR ''/'' \<notin> set (sanitize_filename name)"
proof -
  have "set (sanitize_filename name) \<subseteq> set (replace_dotdot (basename name))"
    unfolding sanitize_filename_def by (rule set_mono_sublist [OF py_strip_sublist])
  also have "\<dots> \<subseteq> insert (CHR ''_'') (set (basename name))"
    by (rule replace_dotdot_set)
  finally show ?thesis using basename_no_slash [of name] by auto
qed

lemma sanitize_no_dotdot: "\<not> py_in ''..'' (sanitize_filename name)"
proof
  assume "py_in ''..'' (sanitize_filename name)"
  then have "sublist ''..'' (py_strip (replace_dotdot (basename name)))"
    by (simp add: py_in_def sanitize_filename_def)
  then have "sublist ''..'' (replace_dotdot (basename name))"
    using py_strip_sublist by (rule sublist_order.order_trans)
  then show False using replace_dotdot_clean by blast
qed

text \<open>
  Claim C10. For every input string, \<^verbatim>\<open>sanitize_filename\<close> returns a string with no
  slash and no occurrence of two dots in a row. Hence, for a correlation id without a
  slash (a UUID has none), the staged path is the staging directory, a slash, and the one
  component \<^verbatim>\<open>correlation_id_sanitizedName\<close>, which is its base name and is neither
  \<^verbatim>\<open>.\<close> nor \<^verbatim>\<open>..\<close>: the file name cannot leave the staging directory.
\<close>

theorem sanitize_filename_safe:
  "CHR ''/'' \<notin> set (sanitize_filename name)
   \<and> \<not> py_in ''..'' (sanitize_filename name)
   \<and> (CHR ''/'' \<notin> set cid \<longrightarrow>
        initial_save_path cid name
          = temp_staging_dir @ ''/'' @ cid @ ''_'' @ sanitize_filename name
        \<and> basename (initial_save_path cid name) = cid @ ''_'' @ sanitize_filename name
        \<and> cid @ ''_'' @ sanitize_filename name \<noteq> ''.''
        \<and> cid @ ''_'' @ sanitize_filename name \<noteq> ''..'')"
proof (intro conjI impI)
  assume cid: "CHR ''/'' \<notin> set cid"
  let ?name = "cid @ ''_'' @ sanitize_filename name"
  have ns: "CHR ''/'' \<notin> set ?name"
    using cid sanitize_no_slash [of name] by simp
  have "?name \<noteq> []" by simp
  moreover have "hd ?name \<noteq> CHR ''/''"
    using ns by (cases cid) auto
  ultimately show p: "initial_save_path cid name = temp_staging_dir @ ''/'' @ ?name"
    by (simp add: initial_save_path_def path_join_def temp_staging_dir_def)
  show "basename (initial_save_path cid name) = ?name"
    unfolding p using basename_join [OF ns] by simp
  have u: "CHR ''_'' \<in> set ?name" by simp
  show "?name \<noteq> ''.''"
  proof
    assume "?name = ''.''"
    then have "set ?name = set ''.''" by (rule arg_cong [of _ _ set])
    with u show False by simp
  qed
  show "?name \<noteq> ''..''"
  proof
    assume "?name = ''..''"
    then have "set ?name = set ''..''" by (rule arg_cong [of _ _ set])
    with u show False by simp
  qed
qed (rule sanitize_no_slash, rule sanitize_no_dotdot)

theorem sanitize_filename_safe_witness:
  "CHR ''/'' \<notin> set ''c1''
   \<and> sanitize_filename ''../../etc/passwd'' = ''passwd''
   \<and> initial_save_path ''c1'' ''../../etc/passwd'' = ''/tmp/agi_staging/c1_passwd''"
proof -
  have h: "CHR ''/'' \<notin> set ''c1''" by simp
  have v: "sanitize_filename ''../../etc/passwd'' = ''passwd''" by code_simp
  from sanitize_filename_safe [of "''../../etc/passwd''" "''c1''"] h
  have "initial_save_path ''c1'' ''../../etc/passwd''
      = temp_staging_dir @ ''/'' @ ''c1'' @ ''_'' @ sanitize_filename ''../../etc/passwd''"
    by blast
  then show ?thesis
    using h by (simp add: v temp_staging_dir_def)
qed

subsection \<open>Event log query\<close>

lemma sorted_desc_mset: "mset (sorted_desc xs) = mset xs"
  by (simp add: sorted_desc_def)

lemma sorted_desc_sorted: "sorted_wrt (\<lambda>a b. timestamp b \<le> timestamp a) (sorted_desc xs)"
proof -
  have "sorted (map timestamp (sort_key timestamp (rev xs)))"
    by (rule sorted_sort_key)
  then have "sorted_wrt (\<lambda>a b. timestamp a \<le> timestamp b) (sort_key timestamp (rev xs))"
    by (simp add: sorted_map)
  then show ?thesis
    by (simp add: sorted_desc_def sorted_wrt_rev)
qed

lemma take_most_recent:
  assumes "sorted_wrt (\<lambda>a b. timestamp b \<le> timestamp a) s" and "mset s = mset xs"
  shows "mset (take n s) \<subseteq># mset xs"
    and "sorted_wrt (\<lambda>a b. timestamp b \<le> timestamp a) (take n s)"
    and "length (take n s) = min n (length xs)"
    and "\<forall>old \<in># mset xs - mset (take n s). \<forall>e \<in> set (take n s). timestamp old \<le> timestamp e"
proof -
  have split: "mset xs = mset (take n s) + mset (drop n s)"
    by (metis assms(2) append_take_drop_id mset_append)
  show "mset (take n s) \<subseteq># mset xs"
    by (simp add: split)
  show "sorted_wrt (\<lambda>a b. timestamp b \<le> timestamp a) (take n s)"
    using assms(1) by (rule sorted_wrt_take)
  have "length s = length xs"
    using assms(2) by (rule mset_eq_length)
  then show "length (take n s) = min n (length xs)"
    by simp
  have "sorted_wrt (\<lambda>a b. timestamp b \<le> timestamp a) (take n s @ drop n s)"
    using assms(1) by simp
  then have "\<forall>e \<in> set (take n s). \<forall>old \<in> set (drop n s). timestamp old \<le> timestamp e"
    by (simp only: sorted_wrt_append) blast
  moreover have "mset xs - mset (take n s) = mset (drop n s)"
    by (simp add: split)
  ultimately show "\<forall>old \<in># mset xs - mset (take n s). \<forall>e \<in> set (take n s). timestamp old \<le> timestamp e"
    by auto
qed

text \<open>
  Claim C6, as the code has it. For every non-empty correlation id and every limit that
  is not negative, \<^verbatim>\<open>get_recent_events\<close> returns events of the log that carry the id,
  each as often as the log has it at most, sorted by timestamp descending, as many as the
  limit allows, and every matching event left out is no more recent than any event
  returned. Without a correlation id, or with the empty one, the same holds over all
  events of the log.
\<close>

theorem recent_events_query:
  assumes "cid \<noteq> []" and "0 \<le> limit"
  shows "mset (get_recent_events limit (Some cid) tinydb) \<subseteq># mset (filter (carries cid) tinydb)
    \<and> sorted_wrt (\<lambda>a b. timestamp b \<le> timestamp a) (get_recent_events limit (Some cid) tinydb)
    \<and> length (get_recent_events limit (Some cid) tinydb)
        = min (nat limit) (length (filter (carries cid) tinydb))
    \<and> (\<forall>old \<in># mset (filter (carries cid) tinydb) - mset (get_recent_events limit (Some cid) tinydb).
         \<forall>e \<in> set (get_recent_events limit (Some cid) tinydb). timestamp old \<le> timestamp e)
    \<and> mset (get_recent_events limit None tinydb) \<subseteq># mset tinydb
    \<and> sorted_wrt (\<lambda>a b. timestamp b \<le> timestamp a) (get_recent_events limit None tinydb)
    \<and> length (get_recent_events limit None tinydb) = min (nat limit) (length tinydb)
    \<and> (\<forall>old \<in># mset tinydb - mset (get_recent_events limit None tinydb).
         \<forall>e \<in> set (get_recent_events limit None tinydb). timestamp old \<le> timestamp e)
    \<and> get_recent_events limit (Some []) tinydb = get_recent_events limit None tinydb"
proof -
  have a: "get_recent_events limit (Some cid) tinydb
      = take (nat limit) (sorted_desc (filter (carries cid) tinydb))"
    using assms by (simp add: get_recent_events_def py_slice_to_def)
  have b: "get_recent_events limit None tinydb = take (nat limit) (sorted_desc tinydb)"
    using assms by (simp add: get_recent_events_def py_slice_to_def)
  note m = take_most_recent [where n = "nat limit" and xs = "filter (carries cid) tinydb",
      OF sorted_desc_sorted sorted_desc_mset]
  note n = take_most_recent [where n = "nat limit" and xs = tinydb,
      OF sorted_desc_sorted sorted_desc_mset]
  have c: "get_recent_events limit (Some []) tinydb = get_recent_events limit None tinydb"
    by (simp add: get_recent_events_def)
  show ?thesis
    unfolding a b c using m n by (intro conjI) simp_all
qed


theorem recent_events_query_witness:
  "''a'' \<noteq> [] \<and> (0::int) \<le> 2
   \<and> get_recent_events 2 (Some ''a'')
       [\<lparr>timestamp = ''2025-07-23T10:00:01'', event_type = ''document_ingestion_start'',
          payload = [(''correlation_id'', JStr ''a'')]\<rparr>,
        \<lparr>timestamp = ''2025-07-23T10:00:02'', event_type = ''document_ingestion_start'',
          payload = [(''correlation_id'', JStr ''b'')]\<rparr>,
        \<lparr>timestamp = ''2025-07-23T10:00:03'', event_type = ''document_classification'',
          payload = [(''correlation_id'', JStr ''a'')]\<rparr>,
        \<lparr>timestamp = ''2025-07-23T10:00:04'', event_type = ''workflow_assembly'',
          payload = [(''correlation_id'', JStr ''a'')]\<rparr>]
     = [\<lparr>timestamp = ''2025-07-23T10:00:04'', event_type = ''workflow_assembly'',
          payload = [(''correlation_id'', JStr ''a'')]\<rparr>,
        \<lparr>timestamp = ''2025-07-23T10:00:03'', event_type = ''document_classification'',
          payload = [(''correlation_id'', JStr ''a'')]\<rparr>]
   \<and> length (get_recent_events 2 (Some ''a'')
       [\<lparr>timestamp = ''2025-07-23T10:00:01'', event_type = ''document_ingestion_start'',
          payload = [(''correlation_id'', JStr ''a'')]\<rparr>,
        \<lparr>timestamp = ''2025-07-23T10:00:02'', event_type = ''document_ingestion_start'',
          payload = [(''correlation_id'', JStr ''b'')]\<rparr>,
        \<lparr>timestamp = ''2025-07-23T10:00:03'', event_type = ''document_classification'',
          payload = [(''correlation_id'', JStr ''a'')]\<rparr>,
        \<lparr>timestamp = ''2025-07-23T10:00:04'', event_type = ''workflow_assembly'',
          payload = [(''correlation_id'', JStr ''a'')]\<rparr>])
     = min (nat 2) (length (filter (carries ''a'')
       [\<lparr>timestamp = ''2025-07-23T10:00:01'', event_type = ''document_ingestion_start'',
          payload = [(''correlation_id'', JStr ''a'')]\<rparr>,
        \<lparr>timestamp = ''2025-07-23T10:00:02'', event_type = ''document_ingestion_start'',
          payload = [(''correlation_id'', JStr ''b'')]\<rparr>,
        \<lparr>timestamp = ''2025-07-23T10:00:03'', event_type = ''document_classification'',
          payload = [(''correlation_id'', JStr ''a'')]\<rparr>,
        \<lparr>timestamp = ''2025-07-23T10:00:04'', event_type = ''workflow_assembly'',
          payload = [(''correlation_id'', JStr ''a'')]\<rparr>]))"
proof -
  have h1: "''a'' \<noteq> []" by simp
  have h2: "(0::int) \<le> 2" by simp
  have v: "get_recent_events 2 (Some ''a'')
       [\<lparr>timestamp = ''2025-07-23T10:00:01'', event_type = ''document_ingestion_start'',
          payload = [(''correlation_id'', JStr ''a'')]\<rparr>,
        \<lparr>timestamp = ''2025-07-23T10:00:02'', event_type = ''document_ingestion_start'',
          payload = [(''correlation_id'', JStr ''b'')]\<rparr>,
        \<lparr>timestamp = ''2025-07-23T10:00:03'', event_type = ''document_classification'',
          payload = [(''correlation_id'', JStr ''a'')]\<rparr>,
        \<lparr>timestamp = ''2025-07-23T10:00:04'', event_type = ''workflow_assembly'',
          payload = [(''correlation_id'', JStr ''a'')]\<rparr>]
     = [\<lparr>timestamp = ''2025-07-23T10:00:04'', event_type = ''workflow_assembly'',
          payload = [(''correlation_id'', JStr ''a'')]\<rparr>,
        \<lparr>timestamp = ''2025-07-23T10:00:03'', event_type = ''document_classification'',
          payload = [(''correlation_id'', JStr ''a'')]\<rparr>]"
    by code_simp
  show ?thesis
    using h1 h2 v recent_events_query [OF h1 h2] by blast
qed

text \<open>
  The claim as stated fails for the empty correlation id, which the guard
  \<^verbatim>\<open>if correlation_id:\<close> treats as no id, so that an event that does not carry it is
  returned; and for a negative limit, for which the slice drops the oldest events only, so
  that one event is returned under the limit -1.
\<close>

theorem recent_events_counterexample:
  "get_recent_events 10 (Some [])
       [\<lparr>timestamp = ''2025-07-23T10:00:01'', event_type = ''user_chat_message'',
          payload = [(''message'', JStr ''hello''), (''context'', JObj [])]\<rparr>]
     = [\<lparr>timestamp = ''2025-07-23T10:00:01'', event_type = ''user_chat_message'',
          payload = [(''message'', JStr ''hello''), (''context'', JObj [])]\<rparr>]
   \<and> \<not> carries []
       \<lparr>timestamp = ''2025-07-23T10:00:01'', event_type = ''user_chat_message'',
          payload = [(''message'', JStr ''hello''), (''context'', JObj [])]\<rparr>
   \<and> get_recent_events (- 1) (Some ''a'')
       [\<lparr>timestamp = ''2025-07-23T10:00:01'', event_type = ''document_ingestion_start'',
          payload = [(''correlation_id'', JStr ''a'')]\<rparr>,
        \<lparr>timestamp = ''2025-07-23T10:00:03'', event_type = ''document_classification'',
          payload = [(''correlation_id'', JStr ''a'')]\<rparr>]
     = [\<lparr>timestamp = ''2025-07-23T10:00:03'', event_type = ''document_classification'',
          payload = [(''correlation_id'', JStr ''a'')]\<rparr>]"
  by code_simp

subsection \<open>Status query\<close>

lemma no_events_empty:
  assumes "cid \<noteq> []" and "\<forall>e \<in> set tinydb. \<not> carries cid e"
  shows "get_recent_events limit (Some cid) tinydb = []"
proof -
  have "filter (carries cid) tinydb = []"
    using assms(2) by (simp add: filter_empty_conv)
  then show ?thesis
    using assms(1) by (simp add: get_recent_events_def py_slice_to_def sorted_desc_def)
qed

text \<open>
  Claim C9, as the code has it. For every non-empty correlation id that no event of the
  log carries, \<^verbatim>\<open>get_document_status\<close> returns normally, with the status \<^verbatim>\<open>Unknown\<close>,
  the default last action and an empty event history.
\<close>

theorem unknown_status_without_events:
  assumes "cid \<noteq> []" and "\<forall>e \<in> set tinydb. \<not> carries cid e"
  shows "get_document_status cid tinydb =
    \<lparr>correlation_id = cid,
     agi_processing_status = ''Unknown'',
     last_agi_action = JStr ''No AGI action recorded yet.'',
     estimated_completion = ''AGI dynamically re-calibrating'',
     extracted_insights_preview = ''AGI continuously generating insights...'',
     agi_confidence_score = ''High (99.8%)'',
     agi_event_history = []\<rparr>"
  by (simp add: get_document_status_def no_events_empty [OF assms])


theorem unknown_status_without_events_witness:
  "''c9'' \<noteq> []
   \<and> \<not> carries ''c9'' \<lparr>timestamp = ''2025-07-23T10:00:01'',
         event_type = ''document_ingestion_start'',
         payload = [(''correlation_id'', JStr ''c1'')]\<rparr>
   \<and> agi_processing_status (get_document_status ''c9''
        [\<lparr>timestamp = ''2025-07-23T10:00:01'', event_type = ''document_ingestion_start'',
          payload = [(''correlation_id'', JStr ''c1'')]\<rparr>]) = ''Unknown''"
proof -
  have h1: "''c9'' \<noteq> []" by simp
  have h2: "\<forall>e \<in> set [\<lparr>timestamp = ''2025-07-23T10:00:01'',
      event_type = ''document_ingestion_start'',
      payload = [(''correlation_id'', JStr ''c1'')]\<rparr>]. \<not> carries ''c9'' e"
    by (simp add: carries_def)
  show ?thesis
    using h1 h2 unknown_status_without_events [OF h1 h2] by simp
qed

text \<open>
  The claim as stated fails for the empty correlation id: no event carries it, yet the
  query returns every event of the log, and the status is an event's type.
\<close>

theorem unknown_status_counterexample:
  "\<not> carries []
       \<lparr>timestamp = ''2025-07-23T10:00:01'', event_type = ''user_chat_message'',
          payload = [(''message'', JStr ''hello''), (''context'', JObj [])]\<rparr>
   \<and> agi_processing_status (get_document_status []
        [\<lparr>timestamp = ''2025-07-23T10:00:01'', event_type = ''user_chat_message'',
           payload = [(''message'', JStr ''hello''), (''context'', JObj [])]\<rparr>])
      = ''user_chat_message''"
  by code_simp

text \<open>
  Whatever the log and the correlation id, a status that is not \<^verbatim>\<open>Unknown\<close> is the type
  of the last event of the window that the query returned, and no event of the window is
  older than that one.
\<close>

lemma sorted_desc_last:
  assumes "sorted_wrt (\<lambda>a b. timestamp b \<le> timestamp a) xs" and "e \<in> set xs"
  shows "timestamp (last xs) \<le> timestamp e"
proof (cases "e = last xs")
  case True
  then show ?thesis by simp
next
  case False
  from assms(2) have ne: "xs \<noteq> []" by auto
  then have xs: "xs = butlast xs @ [last xs]" by simp
  with assms(2) False have "e \<in> set (butlast xs)"
    by (metis Un_iff empty_iff empty_set set_ConsD set_append)
  moreover have "sorted_wrt (\<lambda>a b. timestamp b \<le> timestamp a) (butlast xs @ [last xs])"
    using assms(1) xs by simp
  ultimately show ?thesis
    by (simp only: sorted_wrt_append) simp
qed

lemma window_sorted:
  "sorted_wrt (\<lambda>a b. timestamp b \<le> timestamp a) (get_recent_events 10 correlation tinydb)"
  by (simp add: get_recent_events_def py_slice_to_def Let_def sorted_wrt_take sorted_desc_sorted
      split: option.split)

lemma status_reads_last_of_window:
  assumes "get_recent_events 10 (Some cid) tinydb \<noteq> []"
  shows "agi_processing_status (get_document_status cid tinydb)
      = event_type (last (get_recent_events 10 (Some cid) tinydb))"
    and "\<forall>e \<in> set (get_recent_events 10 (Some cid) tinydb).
      timestamp (last (get_recent_events 10 (Some cid) tinydb)) \<le> timestamp e"
  using assms sorted_desc_last [OF window_sorted]
  by (simp_all add: get_document_status_def Let_def)

text \<open>
  Claim C1 does not hold of the code. The events come newest first, and the status is
  read from \<^verbatim>\<open>events[-1]\<close>, the last of them: the oldest event among the ten most
  recent, not the most recent one. With an ingestion-start event followed by a
  classification event of the same correlation id, the history is reported newest first
  and the status is the type of the older event.
\<close>

theorem status_reads_oldest_event:
  "map event_type (agi_event_history (get_document_status ''c1''
       [\<lparr>timestamp = ''2025-07-23T10:00:01'', event_type = ''document_ingestion_start'',
          payload = [(''correlation_id'', JStr ''c1''),
                     (''file_path'', JStr ''/tmp/agi_staging/c1_notes.txt'')]\<rparr>,
        \<lparr>timestamp = ''2025-07-23T10:00:02'', event_type = ''document_classification'',
          payload = [(''correlation_id'', JStr ''c1''),
                     (''agi_determined_type'', JStr ''unknown'')]\<rparr>]))
     = [''document_classification'', ''document_ingestion_start'']
   \<and> agi_processing_status (get_document_status ''c1''
       [\<lparr>timestamp = ''2025-07-23T10:00:01'', event_type = ''document_ingestion_start'',
          payload = [(''correlation_id'', JStr ''c1''),
                     (''file_path'', JStr ''/tmp/agi_staging/c1_notes.txt'')]\<rparr>,
        \<lparr>timestamp = ''2025-07-23T10:00:02'', event_type = ''document_classification'',
          payload = [(''correlation_id'', JStr ''c1''),
                     (''agi_determined_type'', JStr ''unknown'')]\<rparr>])
     = ''document_ingestion_start''"
  by code_simp

subsection \<open>Pipeline runner\<close>

lemma log_event_simps:
  "db (log_event clock ty d w) = db w @ [\<lparr>timestamp = clock (ticks w), event_type = ty, payload = d\<rparr>]"
  "fs (log_event clock ty d w) = fs w"
  "ticks (log_event clock ty d w) = Suc (ticks w)"
  "on_startup (log_event clock ty d w) = on_startup w"
  by (simp_all add: log_event_def store_event_def)

lemma float_overflow_bound_pos:
  "10 ^ 300 < float_overflow_bound"
  by (simp add: float_overflow_bound_def)

lemma priority_fault_iff:
  "priority_over_100 p \<noteq> None \<longleftrightarrow> (case p of None \<Rightarrow> True | Some n \<Rightarrow> float_overflow_bound \<le> \<bar>n\<bar>)"
  by (simp add: priority_over_100_def split: option.splits)


lemma run_modules_fault:
  assumes "priority_over_100 (priority md) = Some e" and "ms \<noteq> []"
  shows "run_modules clock md cid ms w = (Some e, w)"
  using assms by (cases ms) simp_all

lemma run_modules_ok:
  assumes "priority_over_100 (priority md) = None"
  shows "\<exists>w' new. run_modules clock md cid ms w = (None, w')
     \<and> fs w' = fs w \<and> on_startup w' = on_startup w
     \<and> ticks w' = ticks w + length ms
     \<and> db w' = db w @ new
     \<and> map event_type new = replicate (length ms) ''module_execution''
     \<and> map payload new = map (\<lambda>m. [(''correlation_id'', JStr cid), (''module'', JStr m),
                (''status'', JStr ''completed'')]) ms"
  using assms
proof (induction ms arbitrary: w)
  case Nil
  then show ?case by simp
next
  case (Cons m ms)
  let ?w1 = "log_event clock ''module_execution''
               [(''correlation_id'', JStr cid), (''module'', JStr m),
                (''status'', JStr ''completed'')] w"
  from Cons.IH [OF Cons.prems, of ?w1] obtain w' new where
    r: "run_modules clock md cid ms ?w1 = (None, w')"
    and f: "fs w' = fs ?w1" "on_startup w' = on_startup ?w1"
      "ticks w' = ticks ?w1 + length ms"
    and d: "db w' = db ?w1 @ new"
    and t: "map event_type new = replicate (length ms) ''module_execution''"
    and p: "map payload new = map (\<lambda>m. [(''correlation_id'', JStr cid), (''module'', JStr m),
                (''status'', JStr ''completed'')]) ms"
    by blast
  let ?e = "\<lparr>timestamp = clock (ticks w), event_type = ''module_execution'',
     payload = [(''correlation_id'', JStr cid), (''module'', JStr m), (''status'', JStr ''completed'')]\<rparr>"
  have "run_modules clock md cid (m # ms) w = (None, w')"
    using Cons.prems r by simp
  moreover have "db w' = db w @ (?e # new)"
    using d by (simp add: log_event_simps)
  ultimately show ?case
    using f t p by (intro exI [of _ w'] exI [of _ "?e # new"]) (simp add: log_event_simps)
qed

text \<open>
  The stage loop raises exactly what the quotient raises, at its first stage: the
  priority is the same at every stage, so a loop that passed its first stage passes
  them all.
\<close>

lemma stage_fault_iff:
  "fst (run_modules clock md cid ms w)
     = (if ms = [] then None else priority_over_100 (priority md))"
proof (cases "priority_over_100 (priority md)")
  case None
  with run_modules_ok [OF None, of clock cid ms w] show ?thesis by auto
next
  case (Some e)
  then show ?thesis by (cases ms) simp_all
qed

lemma processing_modules_nonempty:
  "processing_modules ty \<noteq> []" "processing_modules_fastapi ty \<noteq> []"
  by (simp_all add: processing_modules_def processing_modules_fastapi_def)

lemma replicate_mapD:
  assumes "map f xs = replicate n v" and "x \<in> set xs"
  shows "f x = v"
proof -
  from assms(2) have "f x \<in> set (map f xs)" by simp
  with assms(1) show ?thesis by (simp split: if_splits)
qed



lemma try_block_fault:
  assumes "fs w file_path = Some content"
  shows "fst (try_block clock file_path md cid w) = priority_over_100 (priority md)"
proof (cases "priority_over_100 (priority md)")
  case None
  let ?w2 = "(log_event clock ''workflow_assembly''
      [(''correlation_id'', JStr cid), (''workflow'', JList (map JStr (processing_modules (agi_determined_type file_path (tags md)))))]
      (log_event clock ''document_classification''
         [(''correlation_id'', JStr cid), (''agi_determined_type'', JStr (agi_determined_type file_path (tags md)))]
         w))"
  from run_modules_ok [OF None, of clock cid "processing_modules (agi_determined_type file_path (tags md))" ?w2]
  obtain w3 where
    r: "run_modules clock md cid (processing_modules (agi_determined_type file_path (tags md))) ?w2 = (None, w3)"
    and f: "fs w3 = fs ?w2"
    by blast
  have staged: "fs w3 file_path = Some content"
    using f assms by (simp add: log_event_simps)
  show ?thesis
    using r staged None
    by (simp add: try_block_def integrate_output_def Let_def shutil_move_def)
next
  case (Some e)
  then show ?thesis
    by (simp add: try_block_def Let_def run_modules_fault [OF Some] processing_modules_nonempty)
qed




lemma try_block_fastapi_fault:
  assumes "fs w file_path = Some content"
  shows "fst (try_block_fastapi clock file_path md cid w) = priority_over_100 (priority md)"
proof (cases "priority_over_100 (priority md)")
  case None
  let ?w2 = "(log_event clock ''document_classification''
         [(''correlation_id'', JStr cid), (''agi_determined_type'', JStr (agi_determined_type_fastapi file_path (tags md)))]
         w)"
  from run_modules_ok [OF None, of clock cid "processing_modules_fastapi (agi_determined_type_fastapi file_path (tags md))" ?w2]
  obtain w3 where
    r: "run_modules clock md cid (processing_modules_fastapi (agi_determined_type_fastapi file_path (tags md))) ?w2 = (None, w3)"
    and f: "fs w3 = fs ?w2"
    by blast
  have staged: "fs w3 file_path = Some content"
    using f assms by (simp add: log_event_simps)
  show ?thesis
    using r staged None
    by (simp add: try_block_fastapi_def integrate_output_def Let_def shutil_move_def)
next
  case (Some e)
  then show ?thesis
    by (simp add: try_block_fastapi_def Let_def run_modules_fault [OF Some] processing_modules_nonempty)
qed


text \<open>
  Without the staged file both moves raise, the second one inside the handler: the run
  ends with the \<^verbatim>\<open>FileNotFoundError\<close> of the handler's move and has stored no terminal
  event.
\<close>

lemma missing_file_escapes:
  assumes "fs w file_path = None"
  shows "fst (dynamic_document_processor clock file_path md cid w) = Some (FileNotFoundError file_path)"
    and "\<forall>e \<in> set (drop (length (db w)) (db (snd (dynamic_document_processor clock file_path md cid w)))).
          event_type e \<noteq> ''document_processing_complete''
          \<and> event_type e \<noteq> ''document_processing_error''"
proof -
  let ?w2 = "(log_event clock ''workflow_assembly''
      [(''correlation_id'', JStr cid), (''workflow'', JList (map JStr (processing_modules (agi_determined_type file_path (tags md)))))]
      (log_event clock ''document_classification''
         [(''correlation_id'', JStr cid), (''agi_determined_type'', JStr (agi_determined_type file_path (tags md)))]
         (log_event clock ''document_ingestion_start''
            [(''correlation_id'', JStr cid), (''file_path'', JStr file_path),
             (''metadata'', metadata_dict md)] w)))"
  have both: "fst (dynamic_document_processor clock file_path md cid w) = Some (FileNotFoundError file_path)
    \<and> (\<forall>e \<in> set (drop (length (db w)) (db (snd (dynamic_document_processor clock file_path md cid w)))).
          event_type e \<noteq> ''document_processing_complete''
          \<and> event_type e \<noteq> ''document_processing_error'')"
  proof (cases "priority_over_100 (priority md)")
    case (Some fault)
    show ?thesis
      using assms
      by (simp add: dynamic_document_processor_def try_block_def Let_def
          run_modules_fault [OF Some] processing_modules_nonempty except_handler_def
          shutil_move_def log_event_simps)
  next
    case None
    from run_modules_ok [OF None, of clock cid "processing_modules (agi_determined_type file_path (tags md))" ?w2]
    obtain w3 new where r: "run_modules clock md cid (processing_modules (agi_determined_type file_path (tags md))) ?w2 = (None, w3)"
      and f: "fs w3 = fs ?w2" and d: "db w3 = db ?w2 @ new"
      and t: "map event_type new = replicate (length (processing_modules (agi_determined_type file_path (tags md)))) ''module_execution''"
      by blast
    have gone: "fs w3 file_path = None"
      using f assms by (simp add: log_event_simps)
    have ty: "event_type e = ''module_execution''" if "e \<in> set new" for e
      using replicate_mapD [OF t that] .
    show ?thesis
      using r gone d ty
      by (auto simp: dynamic_document_processor_def try_block_def integrate_output_def Let_def
          except_handler_def shutil_move_def log_event_simps)
  qed
  from both show "fst (dynamic_document_processor clock file_path md cid w) = Some (FileNotFoundError file_path)" ..
  from both show "\<forall>e \<in> set (drop (length (db w)) (db (snd (dynamic_document_processor clock file_path md cid w)))).
          event_type e \<noteq> ''document_processing_complete''
          \<and> event_type e \<noteq> ''document_processing_error''" ..
qed

lemma missing_file_escapes_fastapi:
  assumes "fs w file_path = None"
  shows "fst (dynamic_document_processor_fastapi clock file_path md cid w) = Some (FileNotFoundError file_path)"
    and "\<forall>e \<in> set (drop (length (db w)) (db (snd (dynamic_document_processor_fastapi clock file_path md cid w)))).
          event_type e \<noteq> ''document_processing_complete''
          \<and> event_type e \<noteq> ''document_processing_error''"
proof -
  let ?w2 = "(log_event clock ''document_classification''
         [(''correlation_id'', JStr cid), (''agi_determined_type'', JStr (agi_determined_type_fastapi file_path (tags md)))]
         (log_event clock ''document_ingestion_start''
            [(''correlation_id'', JStr cid), (''file_path'', JStr file_path),
             (''metadata'', metadata_dict md)] w))"
  have both: "fst (dynamic_document_processor_fastapi clock file_path md cid w) = Some (FileNotFoundError file_path)
    \<and> (\<forall>e \<in> set (drop (length (db w)) (db (snd (dynamic_document_processor_fastapi clock file_path md cid w)))).
          event_type e \<noteq> ''document_processing_complete''
          \<and> event_type e \<noteq> ''document_processing_error'')"
  proof (cases "priority_over_100 (priority md)")
    case (Some fault)
    show ?thesis
      using assms
      by (simp add: dynamic_document_processor_fastapi_def try_block_fastapi_def Let_def
          run_modules_fault [OF Some] processing_modules_nonempty except_handler_def
          shutil_move_def log_event_simps)
  next
    case None
    from run_modules_ok [OF None, of clock cid "processing_modules_fastapi (agi_determined_type_fastapi file_path (tags md))" ?w2]
    obtain w3 new where r: "run_modules clock md cid (processing_modules_fastapi (agi_determined_type_fastapi file_path (tags md))) ?w2 = (None, w3)"
      and f: "fs w3 = fs ?w2" and d: "db w3 = db ?w2 @ new"
      and t: "map event_type new = replicate (length (processing_modules_fastapi (agi_determined_type_fastapi file_path (tags md)))) ''module_execution''"
      by blast
    have gone: "fs w3 file_path = None"
      using f assms by (simp add: log_event_simps)
    have ty: "event_type e = ''module_execution''" if "e \<in> set new" for e
      using replicate_mapD [OF t that] .
    show ?thesis
      using r gone d ty
      by (auto simp: dynamic_document_processor_fastapi_def try_block_fastapi_def integrate_output_def Let_def
          except_handler_def shutil_move_def log_event_simps)
  qed
  from both show "fst (dynamic_document_processor_fastapi clock file_path md cid w) = Some (FileNotFoundError file_path)" ..
  from both show "\<forall>e \<in> set (drop (length (db w)) (db (snd (dynamic_document_processor_fastapi clock file_path md cid w)))).
          event_type e \<noteq> ''document_processing_complete''
          \<and> event_type e \<noteq> ''document_processing_error''" ..
qed







subsection \<open>Ingestion, run and status\<close>

text \<open>
  Claim C2 does not hold of the code. The upload \<^verbatim>\<open>acme_contract_v2.pdf\<close> with the
  default metadata is accepted and staged, and \<^verbatim>\<open>ingest_document\<close> only registers a
  handler for the \<^verbatim>\<open>startup\<close> event: no event is logged for the correlation id. When
  the registered run is carried out to its end, the file is at the contract destination
  and the log holds the nine events of a completed run, yet \<^verbatim>\<open>get_document_status\<close>
  reports the status \<^verbatim>\<open>document_ingestion_start\<close>, the type of the oldest event, and no
  terminal state. The completion event, with the final path that the file was moved to,
  appears in the event history of the response only.
\<close>

theorem accepted_item_status_not_terminal:
  "(let clock = (\<lambda>n. ''2025-07-23T10:00:0'' @ [''0123456789'' ! n]);
        md = \<lparr>document_type = None, priority = Some 5, tags = Some [], custom_options = Some []\<rparr>;
        w0 = \<lparr>db = [], fs = Map.empty, ticks = 0, on_startup = []\<rparr>;
        (response, w1) = ingest_document clock ''acme_contract_v2.pdf'' ''%PDF'' md ''c1'' None w0;
        (path, md', cid) = hd (on_startup w1);
        (raised, w2) = dynamic_document_processor clock path md' cid w1;
        st = get_document_status ''c1'' (db w2)
    in \<not> isl response \<and> db w1 = []
       \<and> on_startup w1 = [(''/tmp/agi_staging/c1_acme_contract_v2.pdf'', md, ''c1'')]
       \<and> agi_processing_status (get_document_status ''c1'' (db w1)) = ''Unknown''
       \<and> raised = None
       \<and> fs w2 ''/mnt/data/processed/contracts/c1_acme_contract_v2.pdf'' = Some ''%PDF''
       \<and> map event_type (db w2) =
           [''document_ingestion_start'', ''document_classification'', ''workflow_assembly'',
            ''module_execution'', ''module_execution'', ''module_execution'',
            ''module_execution'', ''document_processing_complete'', ''agi_learning_cycle'']
       \<and> agi_processing_status st = ''document_ingestion_start''
       \<and> last_agi_action st = JStr ''No specific action data.''
       \<and> map event_type (agi_event_history st) =
           [''agi_learning_cycle'', ''document_processing_complete'', ''module_execution'',
            ''module_execution'', ''module_execution'', ''module_execution'',
            ''workflow_assembly'', ''document_classification'', ''document_ingestion_start'']
       \<and> dict_get (payload (agi_event_history st ! 1)) ''final_path'' JNull
           = JStr ''/mnt/data/processed/contracts/c1_acme_contract_v2.pdf'')"
  by code_simp

subsection \<open>Creative cycle\<close>

lemma upper_modes:
  "py_upper ''stylistic'' = ''STYLISTIC''" "py_upper ''modal'' = ''MODAL''"
  "py_upper ''conceptual'' = ''CONCEPTUAL''" "py_upper ''syntactic'' = ''SYNTACTIC''"
  by code_simp+

lemma transform_step:
  "iteration_count (transform d) = Some ((case iteration_count d of Some n \<Rightarrow> n | None \<Rightarrow> 0) + 1)
   \<and> transformation_applied (transform d)
       = Some (transformation_modes
                ! nat ((case iteration_count d of Some n \<Rightarrow> n | None \<Rightarrow> 0)
                       mod int (length transformation_modes)))"
  by (simp add: transform_def Let_def)

text \<open>
  Claim C7. For every creative construct whose \<^verbatim>\<open>iteration_count\<close> is 0, amplification
  at depth 4 applies \<^verbatim>\<open>transform\<close> exactly four times, the resulting
  \<^verbatim>\<open>iteration_count\<close> is 4, and the modes applied by the passes 1 to 4 are stylistic,
  modal, conceptual, syntactic, in this order, as the nesting of the value shows too.
  Every pass, on any construct, selects the mode at index \<^verbatim>\<open>iteration_count\<close> modulo the
  number of modes and increments \<^verbatim>\<open>iteration_count\<close> by exactly 1.
\<close>

theorem amplify_depth_four:
  assumes "iteration_count seed = Some 0"
  shows "amplify 4 seed = transform (transform (transform (transform seed)))
    \<and> iteration_count (amplify 4 seed) = Some 4
    \<and> map (\<lambda>k. transformation_applied (amplify k seed)) [1, 2, 3, 4]
        = [Some ''stylistic'', Some ''modal'', Some ''conceptual'', Some ''syntactic'']
    \<and> c_value (amplify 4 seed)
        = Some (''[SYNTACTIC::Transformed::[CONCEPTUAL::Transformed::[MODAL::Transformed::''
                @ ''[STYLISTIC::Transformed::''
                @ (case c_value seed of Some v \<Rightarrow> v | None \<Rightarrow> []) @ '']]]]'')
    \<and> iteration_count (transform d)
        = Some ((case iteration_count d of Some n \<Rightarrow> n | None \<Rightarrow> 0) + 1)
    \<and> transformation_applied (transform d)
        = Some (transformation_modes
                 ! nat ((case iteration_count d of Some n \<Rightarrow> n | None \<Rightarrow> 0)
                        mod int (length transformation_modes)))"
proof -
  have loop: "amplify 1 seed = transform seed"
      "amplify 2 seed = transform (transform seed)"
      "amplify 3 seed = transform (transform (transform seed))"
      "amplify 4 seed = transform (transform (transform (transform seed)))"
    by (simp_all add: amplify_def eval_nat_numeral)
  have t1: "iteration_count (transform seed) = Some 1"
      "transformation_applied (transform seed) = Some ''stylistic''"
      "c_value (transform seed) = Some (''[STYLISTIC::Transformed::''
          @ (case c_value seed of Some v \<Rightarrow> v | None \<Rightarrow> []) @ '']'')"
    using assms by (simp_all add: transform_def Let_def transformation_modes_def upper_modes)
  have t2: "iteration_count (transform (transform seed)) = Some 2"
      "transformation_applied (transform (transform seed)) = Some ''modal''"
      "c_value (transform (transform seed)) = Some (''[MODAL::Transformed::[STYLISTIC::Transformed::''
          @ (case c_value seed of Some v \<Rightarrow> v | None \<Rightarrow> []) @ '']]'')"
    using t1 by (simp_all add: transform_def [of "transform seed"] Let_def transformation_modes_def upper_modes)
  have t3: "iteration_count (transform (transform (transform seed))) = Some 3"
      "transformation_applied (transform (transform (transform seed))) = Some ''conceptual''"
      "c_value (transform (transform (transform seed)))
        = Some (''[CONCEPTUAL::Transformed::[MODAL::Transformed::[STYLISTIC::Transformed::''
          @ (case c_value seed of Some v \<Rightarrow> v | None \<Rightarrow> []) @ '']]]'')"
    using t2 by (simp_all add: transform_def [of "transform (transform seed)"] Let_def
        transformation_modes_def upper_modes)
  have t4: "iteration_count (transform (transform (transform (transform seed)))) = Some 4"
      "transformation_applied (transform (transform (transform (transform seed)))) = Some ''syntactic''"
      "c_value (transform (transform (transform (transform seed))))
        = Some (''[SYNTACTIC::Transformed::[CONCEPTUAL::Transformed::[MODAL::Transformed::''
                @ ''[STYLISTIC::Transformed::''
          @ (case c_value seed of Some v \<Rightarrow> v | None \<Rightarrow> []) @ '']]]]'')"
    using t3 by (simp_all add: transform_def [of "transform (transform (transform seed))"] Let_def
        transformation_modes_def upper_modes)
  show ?thesis
    using t1 t2 t3 t4 transform_step [of d] by (simp add: loop)
qed

theorem amplify_depth_four_witness:
  "iteration_count \<lparr>c_value = Some ''SYMBOLIC_SEED::12345'', iteration_count = Some 0,
       transformation_applied = None\<rparr> = Some 0
   \<and> iteration_count (amplify 4 \<lparr>c_value = Some ''SYMBOLIC_SEED::12345'',
       iteration_count = Some 0, transformation_applied = None\<rparr>) = Some 4
   \<and> c_value (amplify 4 \<lparr>c_value = Some ''SYMBOLIC_SEED::12345'',
       iteration_count = Some 0, transformation_applied = None\<rparr>)
     = Some (''[SYNTACTIC::Transformed::[CONCEPTUAL::Transformed::[MODAL::Transformed::''
             @ ''[STYLISTIC::Transformed::SYMBOLIC_SEED::12345]]]]'')"
proof -
  have h: "iteration_count \<lparr>c_value = Some ''SYMBOLIC_SEED::12345'', iteration_count = Some 0,
       transformation_applied = None\<rparr> = Some 0"
    by simp
  note t = amplify_depth_four [OF h, where d = "\<lparr>c_value = None, iteration_count = None,
      transformation_applied = None\<rparr>"]
  note a = t [THEN conjunct2, THEN conjunct1]
  note b = t [THEN conjunct2, THEN conjunct2, THEN conjunct2, THEN conjunct1]
  show ?thesis
    using h a b by simp
qed

end
